theory Spec2Isabelle
  imports Complex_Main "HOL-Library.AList"
begin

section \<open>Values, errors and tabular data\<close>

text \<open>
  A cell of a pandas row or column, and a value bound to an SQL parameter: the null value
  (\<^verbatim>\<open>None\<close>/\<^verbatim>\<open>NaN\<close>, SQL \<^verbatim>\<open>NULL\<close>), an integer, a real number or a text.
  Floating-point numbers are idealised as reals.
\<close>

datatype cell = Null | IntC int | RealC real | StrC string

text \<open>The exceptions that the two modules raise or catch.\<close>

datatype error =
    ValueError string
  | IntegrityError string
  | OperationalError string
  | Exception string

text \<open>
  A \<^verbatim>\<open>DataFrame\<close>: its labelled columns, in order. A label is looked up from the left, so the
  first column of a name is the one that \<^verbatim>\<open>df[name]\<close> reads and writes.
\<close>

type_synonym column = "cell list"
type_synonym dataframe = "(string \<times> column) list"

text \<open>The Python values that a caller may pass where a \<^verbatim>\<open>DataFrame\<close> is expected.\<close>

datatype pyobj =
    DataFrame dataframe
  | PyNone
  | PyInt int
  | PyStr string
  | PyList "pyobj list"
  | PyDict "(string \<times> pyobj) list"

definition n_rows :: "dataframe \<Rightarrow> nat" where
  "n_rows df = (case df of [] \<Rightarrow> 0 | (_, c) # _ \<Rightarrow> length c)"

text \<open>\<^verbatim>\<open>df.empty\<close>: one of the two axes has length zero.\<close>

definition df_empty :: "dataframe \<Rightarrow> bool" where
  "df_empty df = (df = [] \<or> n_rows df = 0)"

text \<open>\<^verbatim>\<open>name in df.columns and df[name].isnull().any()\<close>\<close>

definition has_nulls :: "string \<Rightarrow> dataframe \<Rightarrow> bool" where
  "has_nulls name df = (case map_of df name of None \<Rightarrow> False | Some c \<Rightarrow> Null \<in> set c)"

text \<open>\<^verbatim>\<open>column.fillna(v)\<close>\<close>

definition fillna :: "cell \<Rightarrow> column \<Rightarrow> column" where
  "fillna v c = map (\<lambda>x. if x = Null then v else x) c"

text \<open>
  \<^verbatim>\<open>column.astype(int)\<close>, cell by cell. A float is truncated towards zero, a text goes through
  Python's \<^verbatim>\<open>int()\<close>, which is the parameter \<open>py_int\<close> here (\<open>None\<close> where \<^verbatim>\<open>int()\<close> raises), and
  a null cannot be converted.
\<close>

definition trunc_int :: "real \<Rightarrow> int" where
  "trunc_int x = (if 0 \<le> x then \<lfloor>x\<rfloor> else \<lceil>x\<rceil>)"

fun astype_int_cell :: "(string \<Rightarrow> int option) \<Rightarrow> cell \<Rightarrow> error + cell" where
  "astype_int_cell py_int Null = Inl (ValueError ''cannot convert NA to integer'')"
| "astype_int_cell py_int (IntC i) = Inr (IntC i)"
| "astype_int_cell py_int (RealC x) = Inr (IntC (trunc_int x))"
| "astype_int_cell py_int (StrC s) =
     (case py_int s of
        None \<Rightarrow> Inl (ValueError ''invalid literal for int()'')
      | Some i \<Rightarrow> Inr (IntC i))"

fun astype_int :: "(string \<Rightarrow> int option) \<Rightarrow> column \<Rightarrow> error + column" where
  "astype_int py_int [] = Inr []"
| "astype_int py_int (x # xs) =
     (case astype_int_cell py_int x of
        Inl e \<Rightarrow> Inl e
      | Inr y \<Rightarrow> (case astype_int py_int xs of Inl e \<Rightarrow> Inl e | Inr ys \<Rightarrow> Inr (y # ys)))"

text \<open>\<^verbatim>\<open>df[name]\<close> for a label that is present, and \<^verbatim>\<open>df[name] = c\<close>.\<close>

definition get_col :: "string \<Rightarrow> dataframe \<Rightarrow> column" where
  "get_col name df = (case map_of df name of None \<Rightarrow> [] | Some c \<Rightarrow> c)"

definition set_col :: "string \<Rightarrow> column \<Rightarrow> dataframe \<Rightarrow> dataframe" where
  "set_col name c df = AList.update name c df"

section \<open>preprocess.py: \<^verbatim>\<open>DataPreprocessor.clean_data\<close>\<close>

text \<open>The four steps of \<^verbatim>\<open>clean_data\<close>, each guarded as in the source.\<close>

definition fill_title :: "dataframe \<Rightarrow> dataframe" where
  "fill_title df =
     (if has_nulls ''title'' df
      then set_col ''title'' (fillna (StrC ''Unknown Title'') (get_col ''title'' df)) df
      else df)"

definition fill_genre :: "dataframe \<Rightarrow> dataframe" where
  "fill_genre df =
     (if has_nulls ''genre'' df
      then set_col ''genre'' (fillna (StrC ''Unknown'') (get_col ''genre'' df)) df
      else df)"

definition fill_year :: "(string \<Rightarrow> int option) \<Rightarrow> dataframe \<Rightarrow> error + dataframe" where
  "fill_year py_int df =
     (if has_nulls ''year'' df
      then (let df1 = set_col ''year'' (fillna (IntC 0) (get_col ''year'' df)) df
            in case astype_int py_int (get_col ''year'' df1) of
                 Inl e \<Rightarrow> Inl e
               | Inr c \<Rightarrow> Inr (set_col ''year'' c df1))
      else Inr df)"

definition fill_description :: "dataframe \<Rightarrow> dataframe" where
  "fill_description df =
     (if has_nulls ''description'' df
      then set_col ''description'' (fillna (StrC '''') (get_col ''description'' df)) df
      else df)"

text \<open>
  \<^verbatim>\<open>clean_data(df)\<close>: the type check, the early return on an empty frame, then the four steps
  on a copy. The result is the returned frame, or the exception that leaves the method.
\<close>

definition clean_data :: "(string \<Rightarrow> int option) \<Rightarrow> pyobj \<Rightarrow> error + dataframe" where
  "clean_data py_int obj =
     (case obj of
        DataFrame df \<Rightarrow>
          if df_empty df then Inr df
          else (case fill_year py_int (fill_genre (fill_title df)) of
                  Inl e \<Rightarrow> Inl e
                | Inr df3 \<Rightarrow> Inr (fill_description df3))
      | _ \<Rightarrow> Inl (ValueError ''The df parameter must be a pandas DataFrame''))"

definition is_DataFrame :: "pyobj \<Rightarrow> bool" where
  "is_DataFrame obj = (case obj of DataFrame _ \<Rightarrow> True | _ \<Rightarrow> False)"

text \<open>A column that has no null cell.\<close>

definition no_nulls :: "dataframe \<Rightarrow> bool" where
  "no_nulls df = list_all (\<lambda>(_, c). Null \<notin> set c) df"

section \<open>database.py: the store\<close>

text \<open>
  The three relations that \<^verbatim>\<open>create_tables\<close> declares. A user row is \<open>(id, name)\<close>, an item
  row is \<open>(id, title, genre, year, description)\<close>, a rating row is \<open>(user_id, item_id, rating)\<close>;
  the \<^verbatim>\<open>created_at\<close> timestamps are left out. Each table may or may not exist yet. The two
  \<^verbatim>\<open>AUTOINCREMENT\<close> keys keep the largest id handed out so far.
\<close>

type_synonym user_row = "int \<times> string"
type_synonym item_row = "int \<times> cell \<times> cell \<times> cell \<times> cell"
type_synonym rating_row = "int \<times> int \<times> real"

record store =
  has_users :: bool
  has_items :: bool
  has_ratings :: bool
  users :: "user_row list"
  users_seq :: int
  items :: "item_row list"
  items_seq :: int
  ratings :: "rating_row list"

text \<open>A database file on which no statement has run, and one whose tables exist and are empty.\<close>

definition empty_store :: store where
  "empty_store = \<lparr>has_users = False, has_items = False, has_ratings = False,
     users = [], users_seq = 0, items = [], items_seq = 0, ratings = []\<rparr>"

definition fresh_store :: store where
  "fresh_store = \<lparr>has_users = True, has_items = True, has_ratings = True,
     users = [], users_seq = 0, items = [], items_seq = 0, ratings = []\<rparr>"

text \<open>
  The conflict clause of a statement: \<^verbatim>\<open>INSERT INTO\<close> aborts on a violated constraint and the
  driver raises \<^verbatim>\<open>IntegrityError\<close>; \<^verbatim>\<open>INSERT OR IGNORE INTO\<close> skips the row on a violated
  \<^verbatim>\<open>NOT NULL\<close>, \<^verbatim>\<open>CHECK\<close>, \<^verbatim>\<open>UNIQUE\<close> or \<^verbatim>\<open>PRIMARY KEY\<close> constraint and reports nothing,
  but still aborts on a violated foreign key. A row skipped in a table with a generated key
  has used up its id: the next row gets the id after it.
\<close>

datatype conflict = Abort | Ignore

definition on_conflict :: "conflict \<Rightarrow> string \<Rightarrow> store \<Rightarrow> error + store" where
  "on_conflict c msg d = (case c of Abort \<Rightarrow> Inl (IntegrityError msg) | Ignore \<Rightarrow> Inr d)"

text \<open>\<^verbatim>\<open>CREATE TABLE IF NOT EXISTS\<close>, one statement per table: an existing table keeps its rows.\<close>

definition create_users_table :: "store \<Rightarrow> error + store" where
  "create_users_table d = Inr (d\<lparr>has_users := True\<rparr>)"

definition create_items_table :: "store \<Rightarrow> error + store" where
  "create_items_table d = Inr (d\<lparr>has_items := True\<rparr>)"

definition create_ratings_table :: "store \<Rightarrow> error + store" where
  "create_ratings_table d = Inr (d\<lparr>has_ratings := True\<rparr>)"

text \<open>\<^verbatim>\<open>INSERT [OR IGNORE] INTO users (name) VALUES (?)\<close>: \<^verbatim>\<open>name TEXT NOT NULL UNIQUE\<close>.\<close>

definition insert_user :: "conflict \<Rightarrow> string \<Rightarrow> store \<Rightarrow> error + store" where
  "insert_user c name d =
     (if \<not> has_users d then Inl (OperationalError ''no such table: users'')
      else if name \<in> snd ` set (users d)
        then (case c of
                Abort \<Rightarrow> Inl (IntegrityError ''UNIQUE constraint failed: users.name'')
              | Ignore \<Rightarrow> Inr (d\<lparr>users_seq := users_seq d + 1\<rparr>))
      else Inr (d\<lparr>users := users d @ [(users_seq d + 1, name)], users_seq := users_seq d + 1\<rparr>))"

text \<open>
  \<^verbatim>\<open>INSERT [OR IGNORE] INTO items (title, genre, year, description) VALUES (?, ?, ?, ?)\<close>:
  \<^verbatim>\<open>title TEXT NOT NULL\<close>, and no other constraint than the generated key.
\<close>

definition insert_item :: "conflict \<Rightarrow> cell \<times> cell \<times> cell \<times> cell \<Rightarrow> store \<Rightarrow> error + store" where
  "insert_item c row d =
     (case row of (title, genre, year, description) \<Rightarrow>
        if \<not> has_items d then Inl (OperationalError ''no such table: items'')
        else if title = Null
          then (case c of
                  Abort \<Rightarrow> Inl (IntegrityError ''NOT NULL constraint failed: items.title'')
                | Ignore \<Rightarrow> Inr (d\<lparr>items_seq := items_seq d + 1\<rparr>))
        else Inr (d\<lparr>items := items d @ [(items_seq d + 1, title, genre, year, description)],
                    items_seq := items_seq d + 1\<rparr>))"

text \<open>
  \<^verbatim>\<open>INSERT [OR IGNORE] INTO ratings (user_id, item_id, rating) VALUES (?, ?, ?)\<close>:
  \<^verbatim>\<open>CHECK (rating >= 0 AND rating <= 5)\<close>, \<^verbatim>\<open>PRIMARY KEY (user_id, item_id)\<close> and the two foreign
  keys, which the connection enforces (\<^verbatim>\<open>PRAGMA foreign_keys = ON\<close>).
\<close>

definition rating_check :: "real \<Rightarrow> bool" where
  "rating_check r = (r \<ge> 0 \<and> r \<le> 5)"

definition insert_rating :: "conflict \<Rightarrow> rating_row \<Rightarrow> store \<Rightarrow> error + store" where
  "insert_rating c row d =
     (case row of (user_id, item_id, rating) \<Rightarrow>
        if \<not> has_ratings d then Inl (OperationalError ''no such table: ratings'')
        else if \<not> rating_check rating
          then on_conflict c ''CHECK constraint failed: rating >= 0 AND rating <= 5'' d
        else if (user_id, item_id) \<in> (\<lambda>(u, i, r). (u, i)) ` set (ratings d)
          then on_conflict c ''UNIQUE constraint failed: ratings.user_id, ratings.item_id'' d
        else if \<not> has_users d \<or> \<not> has_items d
               \<or> user_id \<notin> fst ` set (users d) \<or> item_id \<notin> fst ` set (items d)
          then Inl (IntegrityError ''FOREIGN KEY constraint failed'')
        else Inr (d\<lparr>ratings := ratings d @ [(user_id, item_id, rating)]\<rparr>))"

text \<open>\<^verbatim>\<open>SELECT id FROM users\<close> and \<^verbatim>\<open>SELECT id FROM items\<close>.\<close>

definition select_user_ids :: "store \<Rightarrow> error + int list" where
  "select_user_ids d =
     (if has_users d then Inr (map fst (users d)) else Inl (OperationalError ''no such table: users''))"

definition select_item_ids :: "store \<Rightarrow> error + int list" where
  "select_item_ids d =
     (if has_items d then Inr (map fst (items d)) else Inl (OperationalError ''no such table: items''))"

section \<open>database.py: the manager and its environment\<close>

text \<open>
  The state that a \<^verbatim>\<open>DatabaseManager\<close> works on: its \<^verbatim>\<open>connection\<close> attribute (\<open>None\<close> or the
  handle of a connection), the database behind \<^verbatim>\<open>db_path\<close> as seen through the connection,
  the connections that were opened and not closed, the next handle, and the numbers of
  calls made so far to the database driver and to the random module.
\<close>

record state =
  connection :: "nat option"
  db :: store
  live :: "nat list"
  next_conn :: nat
  clock :: nat
  draws :: nat

text \<open>
  What the program does not decide: \<open>fails e k\<close> says whether call number \<open>k\<close> to the driver
  raises \<^verbatim>\<open>sqlite3.Error\<close>, and \<open>rand e k\<close> is the raw outcome of call number \<open>k\<close> to the random
  module.
\<close>

record env =
  fails :: "nat \<Rightarrow> bool"
  rand :: "nat \<Rightarrow> nat"

definition no_faults :: "env \<Rightarrow> bool" where
  "no_faults e = (\<forall>k. \<not> fails e k)"

definition tick :: "state \<Rightarrow> state" where
  "tick s = s\<lparr>clock := Suc (clock s)\<rparr>"

text \<open>
  \<^verbatim>\<open>connect\<close>: \<^verbatim>\<open>sqlite3.connect\<close> is assigned to \<^verbatim>\<open>self.connection\<close> before the pragma runs;
  either call may raise, and then the method returns \<^verbatim>\<open>None\<close>.
\<close>

definition connect :: "env \<Rightarrow> state \<Rightarrow> nat option \<times> state" where
  "connect e s =
     (if fails e (clock s) then (None, tick s)
      else let h = next_conn s;
               s1 = (tick s)\<lparr>connection := Some h, live := h # live s, next_conn := Suc h\<rparr>
           in if fails e (clock s1) then (None, tick s1) else (Some h, tick s1))"

text \<open>\<^verbatim>\<open>_get_cursor\<close>: connects when there is no connection, raises when there is still none.\<close>

definition get_cursor :: "env \<Rightarrow> state \<Rightarrow> (error + nat) \<times> state" where
  "get_cursor e s =
     (let s1 = (if connection s = None then snd (connect e s) else s)
      in case connection s1 of
           None \<Rightarrow> (Inl (Exception ''Could not establish connection to the database''), s1)
         | Some h \<Rightarrow> (Inr h, s1))"

text \<open>\<^verbatim>\<open>_safe_commit\<close>\<close>

definition safe_commit :: "env \<Rightarrow> state \<Rightarrow> bool \<times> state" where
  "safe_commit e s =
     (case connection s of
        None \<Rightarrow> (False, s)
      | Some h \<Rightarrow> if fails e (clock s) then (False, tick s) else (True, tick s))"

text \<open>\<^verbatim>\<open>close\<close>\<close>

definition close :: "state \<Rightarrow> state" where
  "close s =
     (case connection s of
        None \<Rightarrow> s
      | Some h \<Rightarrow> s\<lparr>live := removeAll h (live s), connection := None\<rparr>)"

text \<open>
  \<^verbatim>\<open>cursor.execute(sql, params)\<close> for a statement that writes, and for a query with
  \<^verbatim>\<open>fetchall()\<close>: the driver may fail, the statement may violate a constraint, and otherwise
  the statement takes effect.
\<close>

definition execute :: "env \<Rightarrow> (store \<Rightarrow> error + store) \<Rightarrow> state \<Rightarrow> (error + unit) \<times> state" where
  "execute e stmt s =
     (if fails e (clock s) then (Inl (OperationalError ''driver''), tick s)
      else case stmt (db s) of
             Inl err \<Rightarrow> (Inl err, tick s)
           | Inr d \<Rightarrow> (Inr (), (tick s)\<lparr>db := d\<rparr>))"

definition query :: "env \<Rightarrow> (store \<Rightarrow> error + 'a) \<Rightarrow> state \<Rightarrow> (error + 'a) \<times> state" where
  "query e q s =
     (if fails e (clock s) then (Inl (OperationalError ''driver''), tick s)
      else (q (db s), tick s))"

text \<open>A loop of statements inside one \<^verbatim>\<open>try\<close>: the first exception ends it.\<close>

fun execute_all :: "env \<Rightarrow> (store \<Rightarrow> error + store) list \<Rightarrow> state \<Rightarrow> (error + unit) \<times> state" where
  "execute_all e [] s = (Inr (), s)"
| "execute_all e (stmt # stmts) s =
     (case execute e stmt s of
        (Inl err, s1) \<Rightarrow> (Inl err, s1)
      | (Inr _, s1) \<Rightarrow> execute_all e stmts s1)"

text \<open>\<^verbatim>\<open>create_tables\<close>\<close>

definition create_tables :: "env \<Rightarrow> state \<Rightarrow> state" where
  "create_tables e s =
     (case get_cursor e s of
        (Inl _, s1) \<Rightarrow> s1
      | (Inr _, s1) \<Rightarrow>
          (case execute_all e [create_users_table, create_items_table, create_ratings_table] s1 of
             (Inl _, s2) \<Rightarrow> s2
           | (Inr _, s2) \<Rightarrow> snd (safe_commit e s2)))"

subsection \<open>The random module\<close>

text \<open>
  \<^verbatim>\<open>random.random()\<close> is a multiple of \<open>2\<^sup>-\<^sup>5\<^sup>3\<close> in \<open>[0, 1)\<close>; \<^verbatim>\<open>random.uniform(a, b)\<close> is
  \<open>a + (b - a) * random()\<close>; \<^verbatim>\<open>round(x, 1)\<close> rounds to the nearest tenth, a tie going to the even
  neighbour.
\<close>

definition py_random :: "env \<Rightarrow> state \<Rightarrow> real \<times> state" where
  "py_random e s =
     (real (rand e (draws s) mod 9007199254740992) / 9007199254740992,
      s\<lparr>draws := Suc (draws s)\<rparr>)"

definition py_uniform :: "real \<Rightarrow> real \<Rightarrow> env \<Rightarrow> state \<Rightarrow> real \<times> state" where
  "py_uniform a b e s = (case py_random e s of (u, s1) \<Rightarrow> (a + (b - a) * u, s1))"

definition round_half_even :: "real \<Rightarrow> int" where
  "round_half_even y =
     (let f = \<lfloor>y\<rfloor>; d = y - of_int f
      in if d < 1 / 2 then f else if 1 / 2 < d then f + 1 else if even f then f else f + 1)"

definition py_round1 :: "real \<Rightarrow> real" where
  "py_round1 x = of_int (round_half_even (x * 10)) / 10"

text \<open>
  \<^verbatim>\<open>random.sample(population, k)\<close>: \<open>k\<close> positions chosen one after the other from what is left
  of the population, so no position is chosen twice; it raises when \<open>k\<close> exceeds the
  population.
\<close>

fun sample_from :: "env \<Rightarrow> 'a list \<Rightarrow> nat \<Rightarrow> state \<Rightarrow> 'a list \<times> state" where
  "sample_from e pool 0 s = ([], s)"
| "sample_from e pool (Suc k) s =
     (if pool = [] then ([], s)
      else let j = rand e (draws s) mod length pool
           in case sample_from e (take j pool @ drop (Suc j) pool) k (s\<lparr>draws := Suc (draws s)\<rparr>) of
                (rest, s1) \<Rightarrow> (pool ! j # rest, s1))"

definition py_sample :: "env \<Rightarrow> 'a list \<Rightarrow> nat \<Rightarrow> state \<Rightarrow> (error + 'a list) \<times> state" where
  "py_sample e population k s =
     (if length population < k then (Inl (ValueError ''Sample larger than population''), s)
      else case sample_from e population k s of (xs, s1) \<Rightarrow> (Inr xs, s1))"

subsection \<open>Sample users, ratings and catalog\<close>

definition sample_users :: "string list" where
  "sample_users = [''Example user 1'', ''Example user 2'', ''Example user 3'']"

text \<open>\<^verbatim>\<open>_create_sample_users\<close>\<close>

definition create_sample_users :: "env \<Rightarrow> state \<Rightarrow> state" where
  "create_sample_users e s =
     (case get_cursor e s of
        (Inl _, s1) \<Rightarrow> s1
      | (Inr _, s1) \<Rightarrow>
          (case execute_all e (map (insert_user Ignore) sample_users) s1 of
             (Inl _, s2) \<Rightarrow> s2
           | (Inr _, s2) \<Rightarrow> snd (safe_commit e s2)))"

text \<open>The inner loop of \<^verbatim>\<open>_create_sample_ratings\<close>: one user rates the sampled items.\<close>

fun rate_items :: "env \<Rightarrow> int \<Rightarrow> int list \<Rightarrow> state \<Rightarrow> (error + unit) \<times> state" where
  "rate_items e user_id [] s = (Inr (), s)"
| "rate_items e user_id (item_id # rest) s =
     (case py_uniform 3 5 e s of
        (x, s1) \<Rightarrow>
          (case execute e (insert_rating Ignore (user_id, item_id, py_round1 x)) s1 of
             (Inl err, s2) \<Rightarrow> (Inl err, s2)
           | (Inr _, s2) \<Rightarrow> rate_items e user_id rest s2))"

text \<open>The outer loop: each user rates \<open>min(5, len(items))\<close> sampled items.\<close>

fun rate_users :: "env \<Rightarrow> int list \<Rightarrow> int list \<Rightarrow> state \<Rightarrow> (error + unit) \<times> state" where
  "rate_users e [] item_ids s = (Inr (), s)"
| "rate_users e (user_id # rest) item_ids s =
     (case py_sample e item_ids (min 5 (length item_ids)) s of
        (Inl err, s1) \<Rightarrow> (Inl err, s1)
      | (Inr sample_items, s1) \<Rightarrow>
          (case rate_items e user_id sample_items s1 of
             (Inl err, s2) \<Rightarrow> (Inl err, s2)
           | (Inr _, s2) \<Rightarrow> rate_users e rest item_ids s2))"

text \<open>\<^verbatim>\<open>_create_sample_ratings\<close>\<close>

definition create_sample_ratings :: "env \<Rightarrow> state \<Rightarrow> state" where
  "create_sample_ratings e s =
     (case get_cursor e s of
        (Inl _, s1) \<Rightarrow> s1
      | (Inr _, s1) \<Rightarrow>
          (case query e select_user_ids s1 of
             (Inl _, s2) \<Rightarrow> s2
           | (Inr user_ids, s2) \<Rightarrow>
               (case query e select_item_ids s2 of
                  (Inl _, s3) \<Rightarrow> s3
                | (Inr item_ids, s3) \<Rightarrow>
                    if user_ids = [] \<or> item_ids = [] then s3
                    else (case rate_users e user_ids item_ids s3 of
                            (Inl _, s4) \<Rightarrow> s4
                          | (Inr _, s4) \<Rightarrow> snd (safe_commit e s4)))))"

definition sample_items :: "(cell \<times> cell \<times> cell \<times> cell) list" where
  "sample_items =
     [(StrC ''Naruto'', StrC ''Action, Adventure'', IntC 2002,
         StrC ''Young ninja seeks to become Hokage''),
      (StrC ''Attack on Titan'', StrC ''Action, Drama'', IntC 2013,
         StrC ''Humans fight against titans''),
      (StrC ''Death Note'', StrC ''Mystery, Thriller'', IntC 2006,
         StrC ''Book that kills by writing names''),
      (StrC ''My Hero Academia'', StrC ''Action, Superheroes'', IntC 2016,
         StrC ''Young man without powers in a world of heroes''),
      (StrC ''Demon Slayer'', StrC ''Action, Fantasy'', IntC 2019, StrC ''Young Demon Hunter'')]"

text \<open>\<^verbatim>\<open>_create_sample_data\<close>\<close>

definition create_sample_data :: "env \<Rightarrow> state \<Rightarrow> state" where
  "create_sample_data e s =
     (case get_cursor e s of
        (Inl _, s1) \<Rightarrow> s1
      | (Inr _, s1) \<Rightarrow>
          (case execute_all e (map (insert_item Abort) sample_items) s1 of
             (Inl _, s2) \<Rightarrow> s2
           | (Inr _, s2) \<Rightarrow>
               (case safe_commit e s2 of
                  (True, s3) \<Rightarrow> create_sample_ratings e (create_sample_users e s3)
                | (False, s3) \<Rightarrow> s3)))"

subsection \<open>Ingestion\<close>

text \<open>
  What is found at \<^verbatim>\<open>csv_path\<close>: nothing, a file that \<^verbatim>\<open>pd.read_csv\<close> cannot read, or a table
  with its header and its data rows.
\<close>

datatype csv_file = NoFile | Unreadable | Table "string list" "cell list list"

text \<open>A row of \<^verbatim>\<open>df.iterrows()\<close> is a labelled series; \<^verbatim>\<open>row.get(key, default)\<close>.\<close>

type_synonym series = "(string \<times> cell) list"

definition row_get :: "series \<Rightarrow> string \<Rightarrow> cell \<Rightarrow> cell" where
  "row_get row key dflt = (case map_of row key of None \<Rightarrow> dflt | Some v \<Rightarrow> v)"

definition resolve_fields :: "series \<Rightarrow> cell \<times> cell \<times> cell \<times> cell" where
  "resolve_fields row =
     (let title = row_get row ''title'' (row_get row ''name'' (StrC ''Untitled''));
          genre = row_get row ''genre'' (row_get row ''genres'' (StrC ''Unknown''));
          year = row_get row ''year'' (row_get row ''release_year'' Null);
          description = row_get row ''description'' (row_get row ''synopsis'' (StrC ''''))
      in (title, genre, year, description))"

text \<open>The loop over the rows: an exception of one row is caught and the loop goes on.\<close>

fun insert_rows :: "env \<Rightarrow> string list \<Rightarrow> cell list list \<Rightarrow> state \<Rightarrow> state" where
  "insert_rows e header [] s = s"
| "insert_rows e header (r # rs) s =
     insert_rows e header rs
       (snd (execute e (insert_item Ignore (resolve_fields (zip header r))) s))"

text \<open>
  \<^verbatim>\<open>insert_initial_data\<close>. The first part decides whether the sample data are needed, and
  returns early when the commit fails.
\<close>

datatype outcome = Fallback state | Ingested state | Returned state

definition read_source :: "env \<Rightarrow> csv_file \<Rightarrow> state \<Rightarrow> outcome" where
  "read_source e file s =
     (case file of
        NoFile \<Rightarrow> Fallback s
      | Unreadable \<Rightarrow> Fallback s
      | Table header rows \<Rightarrow>
          if length rows = 0 then Fallback s
          else (case get_cursor e s of
                  (Inl _, s1) \<Rightarrow> Fallback s1
                | (Inr _, s1) \<Rightarrow>
                    (case safe_commit e (insert_rows e header rows s1) of
                       (True, s2) \<Rightarrow> Ingested (create_sample_users e s2)
                     | (False, s2) \<Rightarrow> Returned s2)))"

definition insert_initial_data :: "env \<Rightarrow> csv_file \<Rightarrow> state \<Rightarrow> state" where
  "insert_initial_data e file s =
     (case read_source e file s of
        Fallback s1 \<Rightarrow> create_sample_data e s1
      | Ingested s1 \<Rightarrow> s1
      | Returned s1 \<Rightarrow> s1)"

text \<open>\<^verbatim>\<open>initialize_database\<close>\<close>

definition initialize_database :: "env \<Rightarrow> csv_file \<Rightarrow> state \<Rightarrow> state" where
  "initialize_database e file s =
     (case connect e s of
        (Some _, s1) \<Rightarrow> close (insert_initial_data e file (create_tables e s1))
      | (None, s1) \<Rightarrow> s1)"

section \<open>preprocess.py: \<^verbatim>\<open>DataPreprocessor.load_data_from_db\<close>\<close>

text \<open>\<^verbatim>\<open>SELECT id, title, genre, year, description FROM items\<close> as a frame.\<close>

definition items_frame :: "item_row list \<Rightarrow> dataframe" where
  "items_frame rows =
     [(''id'', map (\<lambda>(i, t, g, y, d). IntC i) rows),
      (''title'', map (\<lambda>(i, t, g, y, d). t) rows),
      (''genre'', map (\<lambda>(i, t, g, y, d). g) rows),
      (''year'', map (\<lambda>(i, t, g, y, d). y) rows),
      (''description'', map (\<lambda>(i, t, g, y, d). d) rows)]"

definition select_items :: "store \<Rightarrow> error + dataframe" where
  "select_items d =
     (if has_items d then Inr (items_frame (items d))
      else Inl (OperationalError ''no such table: items''))"

text \<open>The body of the \<^verbatim>\<open>try\<close>, then the \<^verbatim>\<open>except\<close> and \<^verbatim>\<open>finally\<close> clauses around it.\<close>

definition load_body :: "env \<Rightarrow> state \<Rightarrow> (error + dataframe) \<times> state" where
  "load_body e s =
     (case get_cursor e (snd (connect e s)) of
        (Inl err, s1) \<Rightarrow> (Inl err, s1)
      | (Inr _, s1) \<Rightarrow> query e select_items s1)"

definition load_data_from_db :: "env \<Rightarrow> state \<Rightarrow> (error + dataframe) \<times> state" where
  "load_data_from_db e s =
     (case load_body e s of
        (Inl _, s1) \<Rightarrow> (Inr [], close s1)
      | (Inr items_df, s1) \<Rightarrow> (Inr items_df, close s1))"

section \<open>Concrete inputs\<close>

text \<open>An \<^verbatim>\<open>int()\<close> that accepts no text, a frame with a null in each cleaned column, and its
  cleaned form.\<close>

definition no_int :: "string \<Rightarrow> int option" where
  "no_int s = None"

definition dirty_frame :: dataframe where
  "dirty_frame =
     [(''id'', [IntC 1, IntC 2]),
      (''title'', [StrC ''Naruto'', Null]),
      (''genre'', [Null, StrC ''Drama'']),
      (''year'', [RealC 2002, Null]),
      (''description'', [Null, Null])]"

definition cleaned_frame :: dataframe where
  "cleaned_frame =
     [(''id'', [IntC 1, IntC 2]),
      (''title'', [StrC ''Naruto'', StrC ''Unknown Title'']),
      (''genre'', [StrC ''Unknown'', StrC ''Drama'']),
      (''year'', [IntC 2002, IntC 0]),
      (''description'', [StrC '''', StrC ''''])]"

text \<open>An environment in which nothing fails, and one in which every call to the driver fails.\<close>

definition quiet_env :: env where
  "quiet_env = \<lparr>fails = (\<lambda>k. False), rand = (\<lambda>k. 0)\<rparr>"

definition broken_env :: env where
  "broken_env = \<lparr>fails = (\<lambda>k. True), rand = (\<lambda>k. 0)\<rparr>"

text \<open>A manager that has not connected yet, and one that holds the connection \<open>0\<close>, both on a
  database whose tables are empty.\<close>

definition new_state :: state where
  "new_state = \<lparr>connection = None, db = fresh_store, live = [], next_conn = 0, clock = 0, draws = 0\<rparr>"

definition connected_state :: state where
  "connected_state =
     \<lparr>connection = Some 0, db = fresh_store, live = [0], next_conn = 1, clock = 2, draws = 0\<rparr>"

text \<open>The invariant of the \<^verbatim>\<open>CHECK\<close> constraint.\<close>

definition ratings_in_range :: "store \<Rightarrow> bool" where
  "ratings_in_range d = list_all (\<lambda>(u, i, r). 0 \<le> r \<and> r \<le> 5) (ratings d)"

text \<open>A store with one user and one item, so that a rating of the pair meets both foreign keys.\<close>

definition one_user_one_item :: store where
  "one_user_one_item = fresh_store\<lparr>users := [(1, ''Example user 1'')], users_seq := 1,
     items := [(1, StrC ''Naruto'', StrC ''Action, Adventure'', IntC 2002, Null)], items_seq := 1\<rparr>"

definition rating_state :: state where
  "rating_state = connected_state\<lparr>db := one_user_one_item\<rparr>"

text \<open>The rows that a run of inserts appends to the items table: the generated ids go on from the
  largest id handed out so far.\<close>

fun number_from :: "int \<Rightarrow> (cell \<times> cell \<times> cell \<times> cell) list \<Rightarrow> item_row list" where
  "number_from n [] = []"
| "number_from n (x # xs) = (n + 1, x) # number_from (n + 1) xs"

text \<open>The \<^verbatim>\<open>NOT NULL\<close> constraint of \<^verbatim>\<open>items.title\<close> on a row to insert.\<close>

text \<open>The rows that the loop of the ingestion appends: a row without a title is skipped and
  its id is not used again.\<close>

fun ingested_from :: "int \<Rightarrow> (cell \<times> cell \<times> cell \<times> cell) list \<Rightarrow> item_row list" where
  "ingested_from n [] = []"
| "ingested_from n (x # xs) =
     (if fst x = Null then ingested_from (n + 1) xs else (n + 1, x) # ingested_from (n + 1) xs)"

definition has_title :: "cell \<times> cell \<times> cell \<times> cell \<Rightarrow> bool" where
  "has_title row = (fst row \<noteq> Null)"

text \<open>The alias resolution in the words of the specification: the aliases of a field are tried
  in order, the first one that is a column of the row gives the value, and the default is
  taken when none is.\<close>

fun first_alias :: "string list \<Rightarrow> cell \<Rightarrow> series \<Rightarrow> cell" where
  "first_alias [] dflt row = dflt"
| "first_alias (a # as) dflt row =
     (case map_of row a of None \<Rightarrow> first_alias as dflt row | Some v \<Rightarrow> v)"

definition canonical_fields :: "series \<Rightarrow> cell \<times> cell \<times> cell \<times> cell" where
  "canonical_fields row =
     (first_alias [''title'', ''name''] (StrC ''Untitled'') row,
      first_alias [''genre'', ''genres''] (StrC ''Unknown'') row,
      first_alias [''year'', ''release_year''] Null row,
      first_alias [''description'', ''synopsis''] (StrC '''') row)"

text \<open>A source with the alias columns \<^verbatim>\<open>name\<close> and \<^verbatim>\<open>genres\<close>, a \<^verbatim>\<open>year\<close> column and no description.\<close>

definition csv_header :: "string list" where
  "csv_header = [''name'', ''genres'', ''year'']"

definition csv_rows :: "cell list list" where
  "csv_rows =
     [[StrC ''Bleach'', StrC ''Action'', IntC 2004],
      [Null, StrC ''Drama'', IntC 1999],
      [StrC ''Monster'', Null, Null]]"

text \<open>The ratings of one user, and the range of the sample ratings.\<close>

definition ratings_of :: "int \<Rightarrow> store \<Rightarrow> rating_row list" where
  "ratings_of user_id d = filter (\<lambda>(u, i, r). u = user_id) (ratings d)"

definition sample_range :: "store \<Rightarrow> bool" where
  "sample_range d = list_all (\<lambda>(u, i, r). 3 \<le> r \<and> r \<le> 5) (ratings d)"

text \<open>The users table after \<^verbatim>\<open>_create_sample_users\<close> has run on a table without users.\<close>

definition example_users :: "user_row list" where
  "example_users = [(1, ''Example user 1''), (2, ''Example user 2''), (3, ''Example user 3'')]"

section \<open>Properties of \<^verbatim>\<open>clean_data\<close>\<close>

lemma has_nulls_set_col_other:
  "name \<noteq> name' \<Longrightarrow> has_nulls name (set_col name' c df) = has_nulls name df"
  by (simp add: has_nulls_def set_col_def update_conv')

lemma has_nulls_set_col_same:
  "has_nulls name (set_col name c df) = (Null \<in> set c)"
  by (simp add: has_nulls_def set_col_def update_conv')

lemma get_col_set_col_same: "get_col name (set_col name c df) = c"
  by (simp add: get_col_def set_col_def update_conv')

lemma set_col_set_col_same: "set_col name c (set_col name c' df) = set_col name c df"
  by (simp add: set_col_def)

lemma fillna_no_null: "v \<noteq> Null \<Longrightarrow> Null \<notin> set (fillna v c)"
  by (auto simp: fillna_def)

lemma astype_int_cell_no_null: "astype_int_cell p x = Inr y \<Longrightarrow> y \<noteq> Null"
  by (cases x) (auto split: option.splits)

lemma astype_int_no_null: "astype_int p c = Inr c' \<Longrightarrow> Null \<notin> set c'"
proof (induction c arbitrary: c')
  case Nil
  then show ?case by simp
next
  case (Cons x xs)
  then show ?case
    by (auto split: sum.splits dest: astype_int_cell_no_null)
qed

lemma has_nulls_fill_title [simp]: "\<not> has_nulls ''title'' (fill_title df)"
  by (simp add: fill_title_def has_nulls_set_col_same fillna_no_null)

lemma has_nulls_fill_genre [simp]: "\<not> has_nulls ''genre'' (fill_genre df)"
  by (simp add: fill_genre_def has_nulls_set_col_same fillna_no_null)

lemma has_nulls_fill_description [simp]: "\<not> has_nulls ''description'' (fill_description df)"
  by (simp add: fill_description_def has_nulls_set_col_same fillna_no_null)

lemma has_nulls_fill_year: "fill_year p df = Inr df' \<Longrightarrow> \<not> has_nulls ''year'' df'"
  by (auto simp: fill_year_def Let_def has_nulls_set_col_same split: if_splits sum.splits
      dest: astype_int_no_null)

lemma has_nulls_fill_title_other:
  "name \<noteq> ''title'' \<Longrightarrow> has_nulls name (fill_title df) = has_nulls name df"
  by (simp add: fill_title_def has_nulls_set_col_other)

lemma has_nulls_fill_genre_other:
  "name \<noteq> ''genre'' \<Longrightarrow> has_nulls name (fill_genre df) = has_nulls name df"
  by (simp add: fill_genre_def has_nulls_set_col_other)

lemma has_nulls_fill_description_other:
  "name \<noteq> ''description'' \<Longrightarrow> has_nulls name (fill_description df) = has_nulls name df"
  by (simp add: fill_description_def has_nulls_set_col_other)

lemma has_nulls_fill_year_other:
  "fill_year p df = Inr df' \<Longrightarrow> name \<noteq> ''year'' \<Longrightarrow> has_nulls name df' = has_nulls name df"
  by (auto simp: fill_year_def Let_def has_nulls_set_col_other split: if_splits sum.splits)

lemma clean_data_fixpoint:
  assumes "\<not> has_nulls ''title'' df" "\<not> has_nulls ''genre'' df"
    "\<not> has_nulls ''year'' df" "\<not> has_nulls ''description'' df"
  shows "clean_data p (DataFrame df) = Inr df"
  using assms
  by (simp add: clean_data_def fill_title_def fill_genre_def fill_year_def fill_description_def)

lemma clean_data_result_clean:
  assumes "clean_data p (DataFrame df) = Inr r" "\<not> df_empty df"
  shows "\<not> has_nulls ''title'' r \<and> \<not> has_nulls ''genre'' r
       \<and> \<not> has_nulls ''year'' r \<and> \<not> has_nulls ''description'' r"
proof -
  from assms obtain df3 where
    y: "fill_year p (fill_genre (fill_title df)) = Inr df3" and r: "r = fill_description df3"
    by (auto simp: clean_data_def split: sum.splits)
  have t: "\<not> has_nulls ''title'' df3"
    using has_nulls_fill_year_other [OF y, of "''title''"]
    by (simp add: has_nulls_fill_genre_other)
  have g: "\<not> has_nulls ''genre'' df3"
    using has_nulls_fill_year_other [OF y, of "''genre''"] by simp
  have yr: "\<not> has_nulls ''year'' df3"
    using has_nulls_fill_year [OF y] .
  show ?thesis
    using t g yr by (simp add: r has_nulls_fill_description_other)
qed

lemma no_nulls_has_nulls: "no_nulls df \<Longrightarrow> \<not> has_nulls name df"
  by (auto simp: no_nulls_def has_nulls_def list_all_iff split: option.splits dest!: map_of_SomeD)



text \<open>
  C8. An argument that is not a \<^verbatim>\<open>DataFrame\<close> makes \<^verbatim>\<open>clean_data\<close> raise the \<^verbatim>\<open>ValueError\<close> of
  its type check, whatever the argument holds: nothing is returned and nothing is converted.
\<close>

theorem clean_data_rejects_non_frame:
  "\<not> is_DataFrame obj \<Longrightarrow>
   clean_data py_int obj = Inl (ValueError ''The df parameter must be a pandas DataFrame'')"
  by (cases obj) (simp_all add: clean_data_def is_DataFrame_def)

theorem clean_data_rejects_non_frame_witness:
  "\<not> is_DataFrame (PyDict [(''title'', PyList [PyStr ''Naruto'', PyNone])])
   \<and> clean_data no_int (PyDict [(''title'', PyList [PyStr ''Naruto'', PyNone])])
       = Inl (ValueError ''The df parameter must be a pandas DataFrame'')"
  using clean_data_rejects_non_frame
    [of "PyDict [(''title'', PyList [PyStr ''Naruto'', PyNone])]" no_int]
  by (simp add: is_DataFrame_def)

section \<open>What the operations keep\<close>

text \<open>
  Only \<^verbatim>\<open>cursor.execute\<close> changes the database, so a property of the store that every
  statement of an operation keeps is kept by the operation, whatever fails on the way.
\<close>

lemma db_tick [simp]: "db (tick s) = db s" by (simp add: tick_def)
lemma connection_tick [simp]: "connection (tick s) = connection s" by (simp add: tick_def)
lemma live_tick [simp]: "live (tick s) = live s" by (simp add: tick_def)
lemma draws_tick [simp]: "draws (tick s) = draws s" by (simp add: tick_def)
lemma next_conn_tick [simp]: "next_conn (tick s) = next_conn s" by (simp add: tick_def)
lemma clock_tick [simp]: "clock (tick s) = Suc (clock s)" by (simp add: tick_def)

lemma db_connect [simp]: "db (snd (connect e s)) = db s"
  by (simp add: connect_def Let_def)

lemma draws_connect [simp]: "draws (snd (connect e s)) = draws s"
  by (simp add: connect_def Let_def)

lemma db_get_cursor [simp]: "db (snd (get_cursor e s)) = db s"
  by (simp add: get_cursor_def Let_def split: option.splits)

lemma draws_get_cursor [simp]: "draws (snd (get_cursor e s)) = draws s"
  by (simp add: get_cursor_def Let_def split: option.splits)

lemma db_safe_commit [simp]: "db (snd (safe_commit e s)) = db s"
  by (simp add: safe_commit_def split: option.splits)

lemma draws_safe_commit [simp]: "draws (snd (safe_commit e s)) = draws s"
  by (simp add: safe_commit_def split: option.splits)

lemma db_close [simp]: "db (close s) = db s"
  by (simp add: close_def split: option.splits)

lemma db_query [simp]: "db (snd (query e q s)) = db s"
  by (simp add: query_def)

lemma db_py_uniform [simp]: "db (snd (py_uniform a b e s)) = db s"
  by (simp add: py_uniform_def py_random_def)

lemma db_sample_from [simp]: "db (snd (sample_from e pool k s)) = db s"
  by (induction e pool k s rule: sample_from.induct) (auto simp: Let_def split: prod.splits)

lemma db_py_sample [simp]: "db (snd (py_sample e pool k s)) = db s"
  using db_sample_from [of e pool k s]
  by (cases "sample_from e pool k s") (auto simp: py_sample_def)

lemma execute_keeps:
  assumes "execute e stmt s = (r, s')" and "P (db s)"
    and "\<And>d d'. P d \<Longrightarrow> stmt d = Inr d' \<Longrightarrow> P d'"
  shows "P (db s')"
  using assms by (auto simp: execute_def split: sum.splits if_splits)

lemma execute_all_keeps:
  assumes "execute_all e stmts s = (r, s')" and "P (db s)"
    and "\<And>stmt d d'. stmt \<in> set stmts \<Longrightarrow> P d \<Longrightarrow> stmt d = Inr d' \<Longrightarrow> P d'"
  shows "P (db s')"
  using assms
proof (induction stmts arbitrary: s)
  case Nil
  then show ?case by simp
next
  case (Cons stmt stmts)
  obtain r1 s1 where ex: "execute e stmt s = (r1, s1)" by (cases "execute e stmt s")
  have p1: "P (db s1)"
    by (rule execute_keeps [where P = P, OF ex Cons.prems(2)]) (use Cons.prems(3) in auto)
  show ?case
  proof (cases r1)
    case (Inl err)
    with ex p1 Cons.prems(1) show ?thesis by simp
  next
    case (Inr u)
    with ex Cons.prems(1) have "execute_all e stmts s1 = (r, s')" by simp
    then show ?thesis
      by (rule Cons.IH [OF _ p1]) (use Cons.prems(3) in auto)
  qed
qed

lemma rate_items_keeps:
  assumes "rate_items e u is s = (r, s')" and "P (db s)"
    and "\<And>row d d'. P d \<Longrightarrow> insert_rating Ignore row d = Inr d' \<Longrightarrow> P d'"
  shows "P (db s')"
  using assms(1,2)
proof (induction "is" arbitrary: s)
  case Nil
  then show ?case by simp
next
  case (Cons i rest)
  obtain x s1 where u: "py_uniform 3 5 e s = (x, s1)" by (cases "py_uniform 3 5 e s")
  then have p1: "P (db s1)"
    using Cons.prems db_py_uniform [of 3 5 e s] by simp
  obtain r2 s2 where ex: "execute e (insert_rating Ignore (u, i, py_round1 x)) s1 = (r2, s2)"
    by (cases "execute e (insert_rating Ignore (u, i, py_round1 x)) s1")
  have p2: "P (db s2)"
    by (rule execute_keeps [where P = P, OF ex p1]) (use assms(3) in auto)
  show ?case
  proof (cases r2)
    case (Inl err)
    with u ex p2 Cons.prems(1) show ?thesis by simp
  next
    case (Inr v)
    with u ex Cons.prems(1) have "rate_items e u rest s2 = (r, s')" by simp
    then show ?thesis by (rule Cons.IH [OF _ p2])
  qed
qed

lemma rate_users_keeps:
  assumes "rate_users e us is s = (r, s')" and "P (db s)"
    and "\<And>row d d'. P d \<Longrightarrow> insert_rating Ignore row d = Inr d' \<Longrightarrow> P d'"
  shows "P (db s')"
  using assms(1,2)
proof (induction us arbitrary: s)
  case Nil
  then show ?case by simp
next
  case (Cons u rest)
  obtain r1 s1 where sm: "py_sample e is (min 5 (length is)) s = (r1, s1)"
    by (cases "py_sample e is (min 5 (length is)) s")
  then have p1: "P (db s1)"
    using Cons.prems db_py_sample [of e "is" "min 5 (length is)" s] by simp
  show ?case
  proof (cases r1)
    case (Inl err)
    with sm p1 Cons.prems(1) show ?thesis by simp
  next
    case (Inr smp)
    obtain r2 s2 where ri: "rate_items e u smp s1 = (r2, s2)" by (cases "rate_items e u smp s1")
    have p2: "P (db s2)"
      by (rule rate_items_keeps [where P = P, OF ri p1 assms(3)])
    show ?thesis
    proof (cases r2)
      case (Inl err)
      with sm Inr ri p2 Cons.prems(1) show ?thesis by simp
    next
      case (Inr v)
      with sm \<open>r1 = Inr smp\<close> ri Cons.prems(1) have "rate_users e rest is s2 = (r, s')" by simp
      then show ?thesis by (rule Cons.IH [OF _ p2])
    qed
  qed
qed

lemma create_sample_users_keeps:
  assumes "P (db s)"
    and "\<And>name d d'. P d \<Longrightarrow> insert_user Ignore name d = Inr d' \<Longrightarrow> P d'"
  shows "P (db (create_sample_users e s))"
proof -
  obtain r s1 where g: "get_cursor e s = (r, s1)" by (cases "get_cursor e s")
  then have p1: "P (db s1)" using assms(1) db_get_cursor [of e s] by simp
  obtain r2 s2 where ex: "execute_all e (map (insert_user Ignore) sample_users) s1 = (r2, s2)"
    by (cases "execute_all e (map (insert_user Ignore) sample_users) s1")
  have p2: "P (db s2)"
    by (rule execute_all_keeps [where P = P, OF ex p1]) (use assms(2) in auto)
  show ?thesis
    using g ex p1 p2 by (cases r; cases r2) (simp_all add: create_sample_users_def)
qed

lemma create_sample_ratings_keeps:
  assumes "P (db s)"
    and "\<And>row d d'. P d \<Longrightarrow> insert_rating Ignore row d = Inr d' \<Longrightarrow> P d'"
  shows "P (db (create_sample_ratings e s))"
proof -
  obtain r s1 where g: "get_cursor e s = (r, s1)" by (cases "get_cursor e s")
  then have p1: "P (db s1)" using assms(1) db_get_cursor [of e s] by simp
  obtain r2 s2 where q2: "query e select_user_ids s1 = (r2, s2)" by (cases "query e select_user_ids s1")
  then have p2: "P (db s2)" using p1 db_query [of e select_user_ids s1] by simp
  obtain r3 s3 where q3: "query e select_item_ids s2 = (r3, s3)" by (cases "query e select_item_ids s2")
  then have p3: "P (db s3)" using p2 db_query [of e select_item_ids s2] by simp
  show ?thesis
  proof (cases r)
    case (Inl err)
    with g p1 show ?thesis by (simp add: create_sample_ratings_def)
  next
    case c: (Inr h)
    show ?thesis
    proof (cases r2)
      case (Inl err)
      with g c q2 p2 show ?thesis by (simp add: create_sample_ratings_def)
    next
      case us: (Inr user_ids)
      show ?thesis
      proof (cases r3)
        case (Inl err)
        with g c q2 us q3 p3 show ?thesis by (simp add: create_sample_ratings_def)
      next
        case its: (Inr item_ids)
        obtain r4 s4 where ru: "rate_users e user_ids item_ids s3 = (r4, s4)"
          by (cases "rate_users e user_ids item_ids s3")
        have p4: "P (db s4)"
          by (rule rate_users_keeps [where P = P, OF ru p3 assms(2)])
        then have p5: "P (db (snd (safe_commit e s4)))" by simp
        show ?thesis
          using g c q2 us q3 its ru p3 p4 p5
          by (cases r4) (simp_all add: create_sample_ratings_def)
      qed
    qed
  qed
qed

lemma create_sample_data_keeps:
  assumes "P (db s)"
    and "\<And>row d d'. P d \<Longrightarrow> insert_item Abort row d = Inr d' \<Longrightarrow> P d'"
    and "\<And>name d d'. P d \<Longrightarrow> insert_user Ignore name d = Inr d' \<Longrightarrow> P d'"
    and "\<And>row d d'. P d \<Longrightarrow> insert_rating Ignore row d = Inr d' \<Longrightarrow> P d'"
  shows "P (db (create_sample_data e s))"
proof -
  obtain r s1 where g: "get_cursor e s = (r, s1)" by (cases "get_cursor e s")
  then have p1: "P (db s1)" using assms(1) db_get_cursor [of e s] by simp
  obtain r2 s2 where ex: "execute_all e (map (insert_item Abort) sample_items) s1 = (r2, s2)"
    by (cases "execute_all e (map (insert_item Abort) sample_items) s1")
  have p2: "P (db s2)"
    by (rule execute_all_keeps [where P = P, OF ex p1]) (use assms(2) in auto)
  obtain b s3 where c: "safe_commit e s2 = (b, s3)" by (cases "safe_commit e s2")
  then have p3: "P (db s3)" using p2 db_safe_commit [of e s2] by simp
  have "P (db (create_sample_users e s3))"
    by (rule create_sample_users_keeps [where P = P, OF p3 assms(3)])
  then have p4: "P (db (create_sample_ratings e (create_sample_users e s3)))"
    by (rule create_sample_ratings_keeps [where P = P, OF _ assms(4)])
  show ?thesis
    using g ex c p1 p2 p3 p4 by (cases r; cases r2; cases b) (simp_all add: create_sample_data_def)
qed

lemma insert_rows_keeps:
  assumes "P (db s)"
    and "\<And>row d d'. P d \<Longrightarrow> insert_item Ignore row d = Inr d' \<Longrightarrow> P d'"
  shows "P (db (insert_rows e header rows s))"
  using assms(1)
proof (induction rows arbitrary: s)
  case Nil
  then show ?case by simp
next
  case (Cons r rs)
  obtain r1 s1 where ex: "execute e (insert_item Ignore (resolve_fields (zip header r))) s = (r1, s1)"
    by (cases "execute e (insert_item Ignore (resolve_fields (zip header r))) s")
  have "P (db s1)"
    by (rule execute_keeps [where P = P, OF ex Cons.prems]) (use assms(2) in auto)
  from Cons.IH [OF this] ex show ?case by simp
qed

lemma insert_initial_data_keeps:
  assumes "P (db s)"
    and "\<And>c row d d'. P d \<Longrightarrow> insert_item c row d = Inr d' \<Longrightarrow> P d'"
    and "\<And>name d d'. P d \<Longrightarrow> insert_user Ignore name d = Inr d' \<Longrightarrow> P d'"
    and "\<And>row d d'. P d \<Longrightarrow> insert_rating Ignore row d = Inr d' \<Longrightarrow> P d'"
  shows "P (db (insert_initial_data e file s))"
proof -
  have sd: "P (db (create_sample_data e s1))" if "P (db s1)" for s1
    by (rule create_sample_data_keeps [where P = P, OF that assms(2) assms(3) assms(4)])
  show ?thesis
  proof (cases "file")
    case NoFile
    then show ?thesis using sd [OF assms(1)] by (simp add: insert_initial_data_def read_source_def)
  next
    case Unreadable
    then show ?thesis using sd [OF assms(1)] by (simp add: insert_initial_data_def read_source_def)
  next
    case (Table header rows)
    obtain r s1 where g: "get_cursor e s = (r, s1)" by (cases "get_cursor e s")
    then have p1: "P (db s1)" using assms(1) db_get_cursor [of e s] by simp
    have p2: "P (db (insert_rows e header rows s1))"
      by (rule insert_rows_keeps [where P = P, OF p1 assms(2)])
    obtain b s2 where c: "safe_commit e (insert_rows e header rows s1) = (b, s2)"
      by (cases "safe_commit e (insert_rows e header rows s1)")
    then have p3: "P (db s2)" using p2 db_safe_commit [of e "insert_rows e header rows s1"] by simp
    have p4: "P (db (create_sample_users e s2))"
      by (rule create_sample_users_keeps [where P = P, OF p3 assms(3)])
    show ?thesis
      using Table g c p1 p3 p4 sd [OF assms(1)] sd [OF p1]
      by (cases r; cases b) (simp_all add: insert_initial_data_def read_source_def)
  qed
qed

lemma create_tables_keeps:
  assumes "P (db s)"
    and "\<And>d. P d \<Longrightarrow> P (d\<lparr>has_users := True\<rparr>)"
    and "\<And>d. P d \<Longrightarrow> P (d\<lparr>has_items := True\<rparr>)"
    and "\<And>d. P d \<Longrightarrow> P (d\<lparr>has_ratings := True\<rparr>)"
  shows "P (db (create_tables e s))"
proof -
  obtain r s1 where g: "get_cursor e s = (r, s1)" by (cases "get_cursor e s")
  then have p1: "P (db s1)" using assms(1) db_get_cursor [of e s] by simp
  obtain r2 s2 where
    ex: "execute_all e [create_users_table, create_items_table, create_ratings_table] s1 = (r2, s2)"
    by (cases "execute_all e [create_users_table, create_items_table, create_ratings_table] s1")
  have p2: "P (db s2)"
    by (rule execute_all_keeps [where P = P, OF ex p1])
      (use assms(2-4) in \<open>auto simp: create_users_table_def create_items_table_def
          create_ratings_table_def\<close>)
  show ?thesis
    using g ex p1 p2 by (cases r; cases r2) (simp_all add: create_tables_def)
qed

lemma initialize_database_keeps:
  assumes "P (db s)"
    and "\<And>d. P d \<Longrightarrow> P (d\<lparr>has_users := True\<rparr>)"
    and "\<And>d. P d \<Longrightarrow> P (d\<lparr>has_items := True\<rparr>)"
    and "\<And>d. P d \<Longrightarrow> P (d\<lparr>has_ratings := True\<rparr>)"
    and "\<And>c row d d'. P d \<Longrightarrow> insert_item c row d = Inr d' \<Longrightarrow> P d'"
    and "\<And>name d d'. P d \<Longrightarrow> insert_user Ignore name d = Inr d' \<Longrightarrow> P d'"
    and "\<And>row d d'. P d \<Longrightarrow> insert_rating Ignore row d = Inr d' \<Longrightarrow> P d'"
  shows "P (db (initialize_database e file s))"
proof -
  obtain r s1 where c: "connect e s = (r, s1)" by (cases "connect e s")
  then have p1: "P (db s1)" using assms(1) db_connect [of e s] by simp
  have "P (db (create_tables e s1))"
    by (rule create_tables_keeps [where P = P, OF p1 assms(2) assms(3) assms(4)])
  then have "P (db (insert_initial_data e file (create_tables e s1)))"
    by (rule insert_initial_data_keeps [where P = P, OF _ assms(5) assms(6) assms(7)])
  then show ?thesis
    using c p1 by (cases r) (simp_all add: initialize_database_def)
qed

section \<open>The connection\<close>

text \<open>
  C5 as stated does not hold: \<^verbatim>\<open>connect\<close> called on a manager that holds connection \<open>0\<close> opens
  connection \<open>1\<close>, returns it and stores it, so neither the returned handle nor the state is
  the one before.
\<close>

theorem connect_not_idempotent:
  "connection connected_state = Some 0
   \<and> fst (connect quiet_env connected_state) = Some 1
   \<and> connection (snd (connect quiet_env connected_state)) = Some 1
   \<and> live (snd (connect quiet_env connected_state)) = [1, 0]
   \<and> snd (connect quiet_env connected_state) \<noteq> connected_state"
  by (simp add: connect_def quiet_env_def connected_state_def tick_def Let_def)

text \<open>
  C5, amended. On a manager that holds a connection, \<^verbatim>\<open>_get_cursor\<close> returns that connection and
  changes nothing. \<^verbatim>\<open>connect\<close> does not look at the connection held: when \<^verbatim>\<open>sqlite3.connect\<close>
  raises it returns \<^verbatim>\<open>None\<close> and the held connection stays; otherwise it opens a further
  connection, stores it in place of the held one, and returns it unless the pragma raises.
\<close>

theorem connect_opens_anew:
  assumes "connection s = Some h"
  shows "get_cursor e s = (Inr h, s)
    \<and> (fails e (clock s) \<longrightarrow> connect e s = (None, tick s))
    \<and> (\<not> fails e (clock s) \<longrightarrow>
          connection (snd (connect e s)) = Some (next_conn s)
        \<and> live (snd (connect e s)) = next_conn s # live s
        \<and> (\<not> fails e (Suc (clock s)) \<longrightarrow> fst (connect e s) = Some (next_conn s)))"
  using assms by (simp add: get_cursor_def connect_def Let_def tick_def)

theorem connect_opens_anew_witness:
  "connection connected_state = Some 0
   \<and> get_cursor quiet_env connected_state = (Inr 0, connected_state)
   \<and> \<not> fails quiet_env (clock connected_state)
   \<and> \<not> fails quiet_env (Suc (clock connected_state))
   \<and> fst (connect quiet_env connected_state) = Some 1
   \<and> fails broken_env (clock connected_state)
   \<and> connect broken_env connected_state = (None, tick connected_state)"
proof -
  have h: "connection connected_state = Some 0" by (simp add: connected_state_def)
  have q: "\<not> fails quiet_env (clock connected_state)" "\<not> fails quiet_env (Suc (clock connected_state))"
    by (simp_all add: quiet_env_def)
  have b: "fails broken_env (clock connected_state)" by (simp add: broken_env_def)
  have n: "next_conn connected_state = 1" by (simp add: connected_state_def)
  show ?thesis
    using connect_opens_anew [OF h, of quiet_env] connect_opens_anew [OF h, of broken_env] h q b n
    by simp
qed

section \<open>Loading the items\<close>

lemma connection_close: "connection (close s) = None"
  by (simp add: close_def split: option.splits)

lemma live_after_load_body:
  "set (live (close (snd (load_body e s)))) \<subseteq> set (live s)"
  by (auto simp: load_body_def get_cursor_def connect_def query_def close_def Let_def tick_def
      split: option.splits if_splits)

text \<open>
  C9. \<^verbatim>\<open>load_data_from_db\<close> always returns a frame. Whenever the body of its \<^verbatim>\<open>try\<close> raises, it
  returns the empty frame: that is so when no connection is held after \<^verbatim>\<open>connect\<close> and the
  second attempt of \<^verbatim>\<open>_get_cursor\<close>, when the query fails in the driver, and when the items
  table does not exist. On every path the manager holds no connection afterwards, and no
  connection that the call opened is left open.
\<close>

theorem load_data_from_db_never_raises:
  "(\<exists>df. fst (load_data_from_db e s) = Inr df)
   \<and> (\<forall>err. fst (load_body e s) = Inl err \<longrightarrow> fst (load_data_from_db e s) = Inr [])
   \<and> (connection (snd (get_cursor e (snd (connect e s)))) = None
        \<longrightarrow> fst (load_data_from_db e s) = Inr [])
   \<and> (fails e (clock (snd (get_cursor e (snd (connect e s)))))
        \<longrightarrow> fst (load_data_from_db e s) = Inr [])
   \<and> (\<not> has_items (db s) \<longrightarrow> fst (load_data_from_db e s) = Inr [])
   \<and> connection (snd (load_data_from_db e s)) = None
   \<and> set (live (snd (load_data_from_db e s))) \<subseteq> set (live s)"
proof -
  obtain r s1 where b: "load_body e s = (r, s1)" by (cases "load_body e s")
  have l: "set (live (close s1)) \<subseteq> set (live s)"
    using live_after_load_body [of e s] b by simp
  have c: "connection (snd (get_cursor e (snd (connect e s)))) = None \<Longrightarrow> \<exists>err. r = Inl err"
    using b by (auto simp: load_body_def get_cursor_def Let_def split: option.splits if_splits)
  have q: "fails e (clock (snd (get_cursor e (snd (connect e s))))) \<Longrightarrow> \<exists>err. r = Inl err"
    using b by (cases "get_cursor e (snd (connect e s))"; cases "fst (get_cursor e (snd (connect e s)))")
      (auto simp: load_body_def query_def)
  have t: "\<not> has_items (db s) \<Longrightarrow> \<exists>err. r = Inl err"
    using b db_get_cursor [of e "snd (connect e s)"]
    by (cases "get_cursor e (snd (connect e s))"; cases "fst (get_cursor e (snd (connect e s)))")
      (auto simp: load_body_def query_def select_items_def split: if_splits)
  show ?thesis
    using b l c q t by (cases r) (auto simp: load_data_from_db_def connection_close)
qed

theorem load_data_from_db_never_raises_witness:
  "fst (load_body broken_env new_state)
     = Inl (Exception ''Could not establish connection to the database'')
   \<and> connection (snd (get_cursor broken_env (snd (connect broken_env new_state)))) = None
   \<and> fst (load_data_from_db broken_env new_state) = Inr []
   \<and> connection (snd (load_data_from_db broken_env new_state)) = None
   \<and> live (snd (load_data_from_db broken_env new_state)) = []"
proof -
  have b: "fst (load_body broken_env new_state)
     = Inl (Exception ''Could not establish connection to the database'')"
    by (simp add: load_body_def get_cursor_def connect_def broken_env_def new_state_def tick_def)
  have c: "connection (snd (get_cursor broken_env (snd (connect broken_env new_state)))) = None"
    by (simp add: get_cursor_def connect_def broken_env_def new_state_def tick_def)
  have l: "live new_state = []" by (simp add: new_state_def)
  show ?thesis
    using load_data_from_db_never_raises [of broken_env new_state] b c l by simp
qed


section \<open>Ingestion and sample data\<close>


section \<open>The range of the ratings\<close>

lemma insert_item_ratings: "insert_item c row d = Inr d' \<Longrightarrow> ratings d' = ratings d"
  by (cases row) (auto simp: insert_item_def on_conflict_def split: if_splits conflict.splits)

lemma insert_user_ratings: "insert_user c name d = Inr d' \<Longrightarrow> ratings d' = ratings d"
  by (auto simp: insert_user_def on_conflict_def split: if_splits conflict.splits)

lemma insert_rating_in_range:
  "ratings_in_range d \<Longrightarrow> insert_rating c row d = Inr d' \<Longrightarrow> ratings_in_range d'"
  by (cases row)
    (auto simp: insert_rating_def on_conflict_def ratings_in_range_def rating_check_def
      split: if_splits conflict.splits)

lemma insert_rating_rejects:
  "has_ratings d \<Longrightarrow> \<not> rating_check r \<Longrightarrow>
   insert_rating Abort (u, i, r) d
     = Inl (IntegrityError ''CHECK constraint failed: rating >= 0 AND rating <= 5'')
   \<and> insert_rating Ignore (u, i, r) d = Inr d"
  by (simp add: insert_rating_def on_conflict_def)

lemma in_range_item: "ratings_in_range d \<Longrightarrow> insert_item c row d = Inr d' \<Longrightarrow> ratings_in_range d'"
  by (simp add: ratings_in_range_def insert_item_ratings)

lemma in_range_user: "ratings_in_range d \<Longrightarrow> insert_user c name d = Inr d' \<Longrightarrow> ratings_in_range d'"
  by (simp add: ratings_in_range_def insert_user_ratings)




lemma execute_rest:
  "execute e stmt s = (r, s') \<Longrightarrow>
   connection s' = connection s \<and> draws s' = draws s \<and> live s' = live s
   \<and> next_conn s' = next_conn s \<and> clock s' = Suc (clock s)"
  by (auto simp: execute_def tick_def split: if_splits sum.splits)

lemma execute_all_rest:
  "execute_all e stmts s = (r, s') \<Longrightarrow>
   connection s' = connection s \<and> draws s' = draws s \<and> live s' = live s
   \<and> next_conn s' = next_conn s"
proof (induction stmts arbitrary: s)
  case Nil
  then show ?case by simp
next
  case (Cons stmt stmts)
  obtain r1 s1 where ex: "execute e stmt s = (r1, s1)" by (cases "execute e stmt s")
  note e1 = execute_rest [OF ex]
  show ?case
  proof (cases r1)
    case (Inl err)
    with ex Cons.prems e1 show ?thesis by simp
  next
    case (Inr u)
    with ex Cons.prems have "execute_all e stmts s1 = (r, s')" by simp
    from Cons.IH [OF this] e1 show ?thesis by simp
  qed
qed

lemma insert_rows_rest:
  "connection (insert_rows e header rows s) = connection s
   \<and> draws (insert_rows e header rows s) = draws s
   \<and> live (insert_rows e header rows s) = live s
   \<and> next_conn (insert_rows e header rows s) = next_conn s"
proof (induction rows arbitrary: s)
  case Nil
  then show ?case by simp
next
  case (Cons r rs)
  obtain r1 s1 where ex: "execute e (insert_item Ignore (resolve_fields (zip header r))) s = (r1, s1)"
    by (cases "execute e (insert_item Ignore (resolve_fields (zip header r))) s")
  from Cons.IH [of s1] execute_rest [OF ex] ex show ?case by simp
qed

lemma get_cursor_connected:
  "connection s = Some h \<Longrightarrow> get_cursor e s = (Inr h, s)"
  by (simp add: get_cursor_def)

lemma safe_commit_rest:
  "connection (snd (safe_commit e s)) = connection s \<and> live (snd (safe_commit e s)) = live s
   \<and> next_conn (snd (safe_commit e s)) = next_conn s"
  by (simp add: safe_commit_def tick_def split: option.splits)

lemma create_sample_users_draws: "draws (create_sample_users e s) = draws s"
proof -
  obtain r s1 where g: "get_cursor e s = (r, s1)" by (cases "get_cursor e s")
  then have d1: "draws s1 = draws s" using draws_get_cursor [of e s] by simp
  obtain r2 s2 where ex: "execute_all e (map (insert_user Ignore) sample_users) s1 = (r2, s2)"
    by (cases "execute_all e (map (insert_user Ignore) sample_users) s1")
  note d2 = execute_all_rest [OF ex]
  show ?thesis
    using g ex d1 d2 by (cases r; cases r2) (simp_all add: create_sample_users_def)
qed

lemma insert_item_keeps_ratings:
  "ratings d = R \<Longrightarrow> insert_item c row d = Inr d' \<Longrightarrow> ratings d' = R"
  by (simp add: insert_item_ratings)

lemma insert_user_keeps_ratings:
  "ratings d = R \<Longrightarrow> insert_user c name d = Inr d' \<Longrightarrow> ratings d' = R"
  by (simp add: insert_user_ratings)

lemma insert_initial_data_table:
  assumes "connection s = Some h" and "rows \<noteq> []"
  shows "insert_initial_data e (Table header rows) s
    = (if fst (safe_commit e (insert_rows e header rows s))
       then create_sample_users e (snd (safe_commit e (insert_rows e header rows s)))
       else snd (safe_commit e (insert_rows e header rows s)))"
  using assms
  by (cases "safe_commit e (insert_rows e header rows s)";
      cases "fst (safe_commit e (insert_rows e header rows s))")
    (simp_all add: insert_initial_data_def read_source_def get_cursor_connected)

section \<open>Ingestion from a source with rows\<close>

text \<open>
  C3. On a connected manager, ingestion from a source with at least one row leaves the
  ratings table as it was and draws no random number. When the commit of the batch succeeds,
  the final state is exactly the state that \<^verbatim>\<open>_create_sample_users\<close> leaves after the commit:
  \<^verbatim>\<open>_create_sample_ratings\<close> is named and not called. When the commit fails, the method returns
  at once.
\<close>

theorem ingestion_leaves_ratings:
  assumes "connection s = Some h" and "rows \<noteq> []"
  shows "ratings (db (insert_initial_data e (Table header rows) s)) = ratings (db s)
    \<and> draws (insert_initial_data e (Table header rows) s) = draws s
    \<and> (fst (safe_commit e (insert_rows e header rows s)) \<longrightarrow>
          insert_initial_data e (Table header rows) s
            = create_sample_users e (snd (safe_commit e (insert_rows e header rows s))))
    \<and> (\<not> fst (safe_commit e (insert_rows e header rows s)) \<longrightarrow>
          insert_initial_data e (Table header rows) s
            = snd (safe_commit e (insert_rows e header rows s)))"
proof -
  let ?s1 = "insert_rows e header rows s"
  let ?s2 = "snd (safe_commit e ?s1)"
  note run = insert_initial_data_table [OF assms, of e header]
  have r1: "ratings (db ?s1) = ratings (db s)"
    by (rule insert_rows_keeps [where P = "\<lambda>d. ratings d = ratings (db s)"])
      (simp_all add: insert_item_ratings)
  have r2: "ratings (db ?s2) = ratings (db s)"
    using r1 by simp
  have r3: "ratings (db (create_sample_users e ?s2)) = ratings (db s)"
    by (rule create_sample_users_keeps [where P = "\<lambda>d. ratings d = ratings (db s)"])
      (simp_all add: r1 insert_user_ratings)
  have d2: "draws ?s2 = draws s"
    using insert_rows_rest [of e header rows s] by simp
  show ?thesis
    using run r2 r3 d2 by (simp add: create_sample_users_draws)
qed

section \<open>Runs in which nothing fails\<close>

lemma no_faultsD: "no_faults e \<Longrightarrow> \<not> fails e k"
  by (simp add: no_faults_def)

lemma get_cursor_no_faults:
  assumes "no_faults e"
  shows "\<exists>h. fst (get_cursor e s) = Inr h \<and> connection (snd (get_cursor e s)) = Some h"
  using no_faultsD [OF assms]
  by (cases "connection s") (simp_all add: get_cursor_def connect_def Let_def tick_def)

lemma safe_commit_no_faults:
  "no_faults e \<Longrightarrow> connection s = Some h \<Longrightarrow> safe_commit e s = (True, tick s)"
  by (simp add: safe_commit_def no_faultsD)

lemma execute_no_faults:
  "no_faults e \<Longrightarrow> stmt (db s) = Inr d \<Longrightarrow> execute e stmt s = (Inr (), (tick s)\<lparr>db := d\<rparr>)"
  by (simp add: execute_def no_faultsD)

lemma number_from_append:
  "number_from n (xs @ ys) = number_from n xs @ number_from (n + int (length xs)) ys"
  by (induction xs arbitrary: n) (simp_all add: add.assoc)

lemma length_number_from [simp]: "length (number_from n xs) = length xs"
  by (induction xs arbitrary: n) simp_all

lemma insert_item_has_title:
  "has_items d \<Longrightarrow> has_title row \<Longrightarrow>
   insert_item c row d = Inr (d\<lparr>items := items d @ number_from (items_seq d) [row],
                                items_seq := items_seq d + 1\<rparr>)"
  by (cases row) (simp add: insert_item_def has_title_def)

lemma insert_item_no_title:
  "has_items d \<Longrightarrow> \<not> has_title row \<Longrightarrow>
   insert_item Ignore row d = Inr (d\<lparr>items_seq := items_seq d + 1\<rparr>)"
  by (cases row) (simp add: insert_item_def has_title_def)

text \<open>The plain inserts of a list of rows that all have a title.\<close>

lemma execute_all_insert_items:
  assumes "no_faults e"
  shows "has_items (db s) \<Longrightarrow> list_all has_title rows \<Longrightarrow>
    \<exists>s'. execute_all e (map (insert_item c) rows) s = (Inr (), s')
       \<and> db s' = (db s)\<lparr>items := items (db s) @ number_from (items_seq (db s)) rows,
                         items_seq := items_seq (db s) + int (length rows)\<rparr>
       \<and> connection s' = connection s"
proof (induction rows arbitrary: s)
  case Nil
  then show ?case by simp
next
  case (Cons row rows)
  let ?d = "(db s)\<lparr>items := items (db s) @ number_from (items_seq (db s)) [row],
                    items_seq := items_seq (db s) + 1\<rparr>"
  let ?s1 = "(tick s)\<lparr>db := ?d\<rparr>"
  have ex: "execute e (insert_item c row) s = (Inr (), ?s1)"
    using Cons.prems by (intro execute_no_faults [OF assms] insert_item_has_title) simp_all
  have "has_items (db ?s1)" using Cons.prems by simp
  from Cons.IH [OF this] Cons.prems obtain s' where
    s': "execute_all e (map (insert_item c) rows) ?s1 = (Inr (), s')"
      "db s' = (db ?s1)\<lparr>items := items (db ?s1) @ number_from (items_seq (db ?s1)) rows,
                         items_seq := items_seq (db ?s1) + int (length rows)\<rparr>"
      "connection s' = connection ?s1"
    by auto
  show ?case
    using ex s' by (simp add: tick_def add.assoc add.commute)
qed

lemma resolve_fields_canonical: "resolve_fields row = canonical_fields row"
  by (simp add: resolve_fields_def canonical_fields_def row_get_def split: option.splits)

text \<open>The loop of the ingestion: the rows with a title are appended, the others are skipped.\<close>

lemma insert_rows_no_faults:
  assumes "no_faults e"
  shows "has_items (db s) \<Longrightarrow>
    db (insert_rows e header rows s)
      = (db s)\<lparr>items := items (db s) @ ingested_from (items_seq (db s))
                   (map (\<lambda>r. canonical_fields (zip header r)) rows),
                items_seq := items_seq (db s) + int (length rows)\<rparr>"
proof (induction rows arbitrary: s)
  case Nil
  then show ?case by simp
next
  case (Cons r rs)
  let ?row = "canonical_fields (zip header r)"
  show ?case
  proof (cases "has_title ?row")
    case True
    let ?d = "(db s)\<lparr>items := items (db s) @ number_from (items_seq (db s)) [?row],
                      items_seq := items_seq (db s) + 1\<rparr>"
    let ?s1 = "(tick s)\<lparr>db := ?d\<rparr>"
    have ex: "execute e (insert_item Ignore (resolve_fields (zip header r))) s = (Inr (), ?s1)"
      unfolding resolve_fields_canonical
      using Cons.prems True by (intro execute_no_faults [OF assms] insert_item_has_title) simp_all
    have "has_items (db ?s1)" using Cons.prems by simp
    from Cons.IH [OF this] ex True show ?thesis
      by (simp add: has_title_def add.assoc add.commute)
  next
    case False
    let ?s1 = "(tick s)\<lparr>db := (db s)\<lparr>items_seq := items_seq (db s) + 1\<rparr>\<rparr>"
    have ex: "execute e (insert_item Ignore (resolve_fields (zip header r))) s = (Inr (), ?s1)"
      unfolding resolve_fields_canonical
      using Cons.prems False by (intro execute_no_faults [OF assms] insert_item_no_title) simp_all
    have "has_items (db ?s1)" using Cons.prems by simp
    from Cons.IH [OF this] ex False show ?thesis
      by (simp add: has_title_def add.assoc add.commute)
  qed
qed

theorem ingestion_leaves_ratings_witness:
  "connection rating_state = Some 0 \<and> csv_rows \<noteq> []
   \<and> fst (safe_commit quiet_env (insert_rows quiet_env csv_header csv_rows rating_state))
   \<and> ratings (db rating_state) = []
   \<and> ratings (db (insert_initial_data quiet_env (Table csv_header csv_rows) rating_state)) = []
   \<and> draws (insert_initial_data quiet_env (Table csv_header csv_rows) rating_state) = 0"
proof -
  have h: "connection rating_state = Some 0"
    by (simp add: rating_state_def connected_state_def)
  have r: "csv_rows \<noteq> []" by (simp add: csv_rows_def)
  have c: "fst (safe_commit quiet_env (insert_rows quiet_env csv_header csv_rows rating_state))"
    using insert_rows_rest [of quiet_env csv_header csv_rows rating_state] h
    by (simp add: safe_commit_def quiet_env_def)
  have z: "ratings (db rating_state) = []" "draws rating_state = 0"
    by (simp_all add: rating_state_def connected_state_def one_user_one_item_def fresh_store_def)
  from ingestion_leaves_ratings [OF h r, of quiet_env csv_header]
  have "ratings (db (insert_initial_data quiet_env (Table csv_header csv_rows) rating_state))
      = ratings (db rating_state)"
    and "draws (insert_initial_data quiet_env (Table csv_header csv_rows) rating_state)
      = draws rating_state"
    by blast+
  with h r c z show ?thesis by simp
qed

lemma insert_user_items:
  "insert_user c name d = Inr d' \<Longrightarrow> items d' = items d \<and> has_items d' = has_items d
     \<and> items_seq d' = items_seq d"
  by (auto simp: insert_user_def on_conflict_def split: if_splits conflict.splits)

lemma insert_rating_items:
  "insert_rating c row d = Inr d' \<Longrightarrow> items d' = items d \<and> has_items d' = has_items d
     \<and> items_seq d' = items_seq d"
  by (cases row) (auto simp: insert_rating_def on_conflict_def split: if_splits conflict.splits)

lemma create_sample_users_items:
  "items (db (create_sample_users e s)) = items (db s)
   \<and> has_items (db (create_sample_users e s)) = has_items (db s)
   \<and> items_seq (db (create_sample_users e s)) = items_seq (db s)"
  by (rule create_sample_users_keeps
      [where P = "\<lambda>d. items d = items (db s) \<and> has_items d = has_items (db s)
         \<and> items_seq d = items_seq (db s)"])
    (auto dest: insert_user_items)

lemma create_sample_ratings_items:
  "items (db (create_sample_ratings e s)) = items (db s)
   \<and> has_items (db (create_sample_ratings e s)) = has_items (db s)
   \<and> items_seq (db (create_sample_ratings e s)) = items_seq (db s)"
  by (rule create_sample_ratings_keeps
      [where P = "\<lambda>d. items d = items (db s) \<and> has_items d = has_items (db s)
         \<and> items_seq d = items_seq (db s)"])
    (auto dest: insert_rating_items)

lemma sample_items_have_title: "list_all has_title sample_items"
  by (simp add: sample_items_def has_title_def)

text \<open>What \<^verbatim>\<open>_create_sample_data\<close> does when nothing fails.\<close>

lemma create_sample_data_no_faults:
  assumes "no_faults e" and "has_items (db s)"
  shows "\<exists>s2. create_sample_data e s = create_sample_ratings e (create_sample_users e s2)
    \<and> db s2 = (db s)\<lparr>items := items (db s) @ number_from (items_seq (db s)) sample_items,
                      items_seq := items_seq (db s) + 5\<rparr>
    \<and> connection s2 \<noteq> None"
proof -
  obtain r s1 where g: "get_cursor e s = (r, s1)" by (cases "get_cursor e s")
  with get_cursor_no_faults [OF assms(1), of s] obtain h where
    h: "r = Inr h" "connection s1 = Some h" by auto
  have d1: "db s1 = db s" using g db_get_cursor [of e s] by simp
  from execute_all_insert_items [OF assms(1), of s1 sample_items Abort] assms(2) d1
  obtain s2 where s2: "execute_all e (map (insert_item Abort) sample_items) s1 = (Inr (), s2)"
    "db s2 = (db s)\<lparr>items := items (db s) @ number_from (items_seq (db s)) sample_items,
                      items_seq := items_seq (db s) + int (length sample_items)\<rparr>"
    "connection s2 = connection s1"
    by (auto simp: sample_items_have_title)
  have c: "safe_commit e s2 = (True, tick s2)"
    using safe_commit_no_faults [OF assms(1), of s2 h] s2(3) h(2) by simp
  have l: "int (length sample_items) = 5" by (simp add: sample_items_def)
  have "create_sample_data e s = create_sample_ratings e (create_sample_users e (tick s2))"
    using g h s2(1) c by (simp add: create_sample_data_def)
  moreover have "db (tick s2) = (db s)\<lparr>items := items (db s) @ number_from (items_seq (db s)) sample_items,
                      items_seq := items_seq (db s) + 5\<rparr>"
    using s2(2) l by simp
  moreover have "connection (tick s2) \<noteq> None" using s2(3) h(2) by simp
  ultimately show ?thesis by blast
qed

lemma create_sample_data_items:
  assumes "no_faults e" and "has_items (db s)"
  shows "items (db (create_sample_data e s))
      = items (db s) @ number_from (items_seq (db s)) sample_items
    \<and> has_items (db (create_sample_data e s))"
proof -
  from create_sample_data_no_faults [OF assms] obtain s2 where
    s2: "create_sample_data e s = create_sample_ratings e (create_sample_users e s2)"
    "db s2 = (db s)\<lparr>items := items (db s) @ number_from (items_seq (db s)) sample_items,
                      items_seq := items_seq (db s) + 5\<rparr>"
    by blast
  show ?thesis
    using s2 assms(2) by (simp add: create_sample_ratings_items create_sample_users_items)
qed

lemma create_sample_data_repeated:
  assumes "no_faults e" and "has_items (db s)"
  shows "has_items (db ((create_sample_data e ^^ n) s))
    \<and> length (items (db ((create_sample_data e ^^ n) s))) = length (items (db s)) + 5 * n"
proof (induction n)
  case 0
  show ?case using assms(2) by simp
next
  case (Suc n)
  from create_sample_data_items [OF assms(1), of "(create_sample_data e ^^ n) s"] Suc
  show ?case by (simp add: sample_items_def)
qed

text \<open>
  C10. When nothing fails, each call of \<^verbatim>\<open>_create_sample_data\<close> appends the five sample items
  under five new ids, whatever the items table holds already, so \<open>n\<close> calls add \<open>5 * n\<close> rows;
  on a store without items that is \<open>5 * n\<close> rows in all.
\<close>

theorem create_sample_data_adds_five:
  assumes "no_faults e" and "has_items (db s)"
  shows "items (db (create_sample_data e s))
      = items (db s) @ number_from (items_seq (db s)) sample_items
    \<and> length (items (db ((create_sample_data e ^^ n) s))) = length (items (db s)) + 5 * n"
  using create_sample_data_items [OF assms] create_sample_data_repeated [OF assms, of n] by simp

theorem create_sample_data_adds_five_witness:
  "no_faults quiet_env \<and> has_items (db new_state) \<and> items (db new_state) = []
   \<and> length (items (db ((create_sample_data quiet_env ^^ 3) new_state))) = 15
   \<and> items (db (create_sample_data quiet_env new_state)) = number_from 0 sample_items"
proof -
  have q: "no_faults quiet_env" by (simp add: no_faults_def quiet_env_def)
  have n: "has_items (db new_state)" "items (db new_state) = []" "items_seq (db new_state) = 0"
    by (simp_all add: new_state_def fresh_store_def)
  show ?thesis
    using create_sample_data_adds_five [OF q n(1), of 3] q n by simp
qed



section \<open>The random module\<close>

lemma py_random_range: "0 \<le> fst (py_random e s) \<and> fst (py_random e s) < 1"
proof -
  have "rand e (draws s) mod 9007199254740992 < (9007199254740992::nat)" by simp
  then have "real (rand e (draws s) mod 9007199254740992) < 9007199254740992"
    by (metis of_nat_less_iff of_nat_numeral)
  then show ?thesis by (simp add: py_random_def)
qed

lemma py_uniform_range: "3 \<le> fst (py_uniform 3 5 e s) \<and> fst (py_uniform 3 5 e s) \<le> 5"
  using py_random_range [of e s]
  by (cases "py_random e s") (simp add: py_uniform_def)

lemma py_uniform_rest:
  "db (snd (py_uniform a b e s)) = db s \<and> connection (snd (py_uniform a b e s)) = connection s
   \<and> clock (snd (py_uniform a b e s)) = clock s"
  by (simp add: py_uniform_def py_random_def)

lemma round_half_even_range:
  assumes "30 \<le> y" and "y \<le> 50"
  shows "30 \<le> round_half_even y \<and> round_half_even y \<le> 50"
proof -
  have f1: "30 \<le> \<lfloor>y\<rfloor>" using assms(1) by (simp add: le_floor_iff)
  have f2: "\<lfloor>y\<rfloor> \<le> 50" using assms(2) by (simp add: floor_le_iff)
  have f3: "\<lfloor>y\<rfloor> = 50 \<Longrightarrow> y - of_int \<lfloor>y\<rfloor> < 1 / 2"
    using assms(2) by simp
  have lo: "\<lfloor>y\<rfloor> \<le> round_half_even y" by (simp add: round_half_even_def Let_def)
  have up: "round_half_even y \<le> \<lfloor>y\<rfloor> + 1" by (simp add: round_half_even_def Let_def)
  have hi: "round_half_even y \<le> 50"
  proof (cases "\<lfloor>y\<rfloor> = 50")
    case True
    with f3 show ?thesis by (simp add: round_half_even_def Let_def)
  next
    case False
    with f2 have "\<lfloor>y\<rfloor> + 1 \<le> 50" by linarith
    with up show ?thesis by linarith
  qed
  from f1 lo hi show ?thesis by linarith
qed

lemma py_round1_range:
  assumes "3 \<le> x" and "x \<le> 5"
  shows "3 \<le> py_round1 x \<and> py_round1 x \<le> 5"
proof -
  have "30 \<le> round_half_even (x * 10) \<and> round_half_even (x * 10) \<le> 50"
    using assms by (intro round_half_even_range) simp_all
  then have "(of_int 30::real) \<le> of_int (round_half_even (x * 10))"
    and "of_int (round_half_even (x * 10)) \<le> (of_int 50::real)"
    by (simp_all only: of_int_le_iff)
  then show ?thesis by (simp add: py_round1_def)
qed

lemma take_drop_distinct:
  assumes "distinct xs" and "j < length xs"
  shows "distinct (take j xs @ drop (Suc j) xs) \<and> xs ! j \<notin> set (take j xs @ drop (Suc j) xs)
    \<and> set (take j xs @ drop (Suc j) xs) \<subseteq> set xs \<and> xs ! j \<in> set xs
    \<and> length (take j xs @ drop (Suc j) xs) = length xs - 1"
proof -
  have "xs = take j xs @ xs ! j # drop (Suc j) xs"
    using assms(2) by (rule id_take_nth_drop)
  with assms(1) have d: "distinct (take j xs @ xs ! j # drop (Suc j) xs)" by simp
  have s: "set (take j xs) \<subseteq> set xs" "set (drop (Suc j) xs) \<subseteq> set xs"
    by (simp_all add: set_take_subset set_drop_subset)
  from d s assms(2) show ?thesis by auto
qed

lemma sample_from_distinct:
  "sample_from e pool k s = (xs, s') \<Longrightarrow> distinct pool \<Longrightarrow> k \<le> length pool \<Longrightarrow>
   distinct xs \<and> set xs \<subseteq> set pool \<and> length xs = k
   \<and> db s' = db s \<and> connection s' = connection s \<and> clock s' = clock s"
proof (induction e pool k s arbitrary: xs s' rule: sample_from.induct)
  case (1 e pool s)
  then show ?case by simp
next
  case (2 e pool k s)
  from "2.prems" have ne: "pool \<noteq> []" by auto
  let ?j = "rand e (draws s) mod length pool"
  let ?pool = "take ?j pool @ drop (Suc ?j) pool"
  have j: "?j < length pool" using ne by simp
  note td = take_drop_distinct [OF "2.prems"(2) j]
  obtain rest s1 where r: "sample_from e ?pool k (s\<lparr>draws := Suc (draws s)\<rparr>) = (rest, s1)"
    by (cases "sample_from e ?pool k (s\<lparr>draws := Suc (draws s)\<rparr>)")
  have k: "k \<le> length ?pool" using td "2.prems"(3) by simp
  have ih: "distinct rest \<and> set rest \<subseteq> set ?pool \<and> length rest = k
      \<and> db s1 = db (s\<lparr>draws := Suc (draws s)\<rparr>)
      \<and> connection s1 = connection (s\<lparr>draws := Suc (draws s)\<rparr>)
      \<and> clock s1 = clock (s\<lparr>draws := Suc (draws s)\<rparr>)"
    using "2.IH" [OF ne refl r] td k by simp
  have xs: "xs = pool ! ?j # rest" "s' = s1"
    using "2.prems"(1) ne r by (simp_all add: Let_def)
  show ?case
    using ih td xs by auto
qed

lemma py_sample_distinct:
  assumes "distinct pool" and "k \<le> length pool"
  shows "\<exists>xs s'. py_sample e pool k s = (Inr xs, s') \<and> distinct xs \<and> set xs \<subseteq> set pool
    \<and> length xs = k \<and> db s' = db s \<and> connection s' = connection s \<and> clock s' = clock s"
proof -
  obtain xs s' where r: "sample_from e pool k s = (xs, s')" by (cases "sample_from e pool k s")
  from sample_from_distinct [OF r assms] r assms(2) show ?thesis
    by (simp add: py_sample_def)
qed

section \<open>Sample data on a fresh store\<close>

lemma ratings_of_empty_key:
  "ratings_of u d = [] \<Longrightarrow> (u, i) \<notin> (\<lambda>(u, i, r). (u, i)) ` set (ratings d)"
  by (auto simp: ratings_of_def filter_empty_conv)

lemma filter_user_rows:
  "filter (\<lambda>(u', i, r). u' = u) (map (\<lambda>(i, r). (u0, i, r)) xs)
     = (if u = u0 then map (\<lambda>(i, r). (u0, i, r)) xs else [])"
  by (induction xs) auto

lemma insert_rating_ok:
  assumes "has_ratings d" "has_users d" "has_items d" "rating_check r"
    "(u, i) \<notin> (\<lambda>(u, i, r). (u, i)) ` set (ratings d)"
    "u \<in> fst ` set (users d)" "i \<in> fst ` set (items d)"
  shows "insert_rating c (u, i, r) d = Inr (d\<lparr>ratings := ratings d @ [(u, i, r)]\<rparr>)"
  using assms by (simp add: insert_rating_def)

text \<open>One user rates a list of distinct items that the user has not rated yet.\<close>

lemma rate_items_no_faults:
  assumes "no_faults e"
  shows "has_ratings (db s) \<Longrightarrow> has_users (db s) \<Longrightarrow> has_items (db s) \<Longrightarrow>
    u \<in> fst ` set (users (db s)) \<Longrightarrow> set is \<subseteq> fst ` set (items (db s)) \<Longrightarrow> distinct is \<Longrightarrow>
    \<forall>i\<in>set is. (u, i) \<notin> (\<lambda>(u, i, r). (u, i)) ` set (ratings (db s)) \<Longrightarrow>
    \<exists>s' rs. rate_items e u is s = (Inr (), s')
      \<and> db s' = (db s)\<lparr>ratings := ratings (db s) @ map (\<lambda>(i, r). (u, i, r)) (zip is rs)\<rparr>
      \<and> length rs = length is \<and> (\<forall>r\<in>set rs. 3 \<le> r \<and> r \<le> 5)
      \<and> connection s' = connection s"
proof (induction "is" arbitrary: s)
  case Nil
  then show ?case by simp
next
  case (Cons i rest)
  obtain x s1 where un: "py_uniform 3 5 e s = (x, s1)" by (cases "py_uniform 3 5 e s")
  have x: "3 \<le> x \<and> x \<le> 5" using py_uniform_range [of e s] un by simp
  have s1: "db s1 = db s" "connection s1 = connection s"
    using py_uniform_rest [of 3 5 e s] un by simp_all
  let ?r = "py_round1 x"
  have r: "3 \<le> ?r \<and> ?r \<le> 5" using x by (intro py_round1_range) simp_all
  then have rc: "rating_check ?r" by (simp add: rating_check_def)
  let ?d = "(db s)\<lparr>ratings := ratings (db s) @ [(u, i, ?r)]\<rparr>"
  let ?s2 = "(tick s1)\<lparr>db := ?d\<rparr>"
  have ins: "insert_rating Ignore (u, i, ?r) (db s1) = Inr ?d"
    unfolding s1 using Cons.prems rc by (intro insert_rating_ok) simp_all
  have ex: "execute e (insert_rating Ignore (u, i, ?r)) s1 = (Inr (), ?s2)"
    by (rule execute_no_faults
        [where stmt = "insert_rating Ignore (u, i, ?r)" and s = s1, OF assms ins])
  have fresh: "\<forall>j\<in>set rest. (u, j) \<notin> (\<lambda>(u, i, r). (u, i)) ` set (ratings (db ?s2))"
    using Cons.prems(6,7) by auto
  from Cons.IH [of ?s2] Cons.prems fresh obtain s' rs where
    ih: "rate_items e u rest ?s2 = (Inr (), s')"
      "db s' = (db ?s2)\<lparr>ratings := ratings (db ?s2) @ map (\<lambda>(i, r). (u, i, r)) (zip rest rs)\<rparr>"
      "length rs = length rest" "\<forall>r\<in>set rs. 3 \<le> r \<and> r \<le> 5"
      "connection s' = connection ?s2"
    by auto
  have run: "rate_items e u (i # rest) s = (Inr (), s')"
    using un ex ih(1) by simp
  have d: "db s' = (db s)\<lparr>ratings := ratings (db s)
      @ map (\<lambda>(i, r). (u, i, r)) (zip (i # rest) (?r # rs))\<rparr>"
    using ih(2) by simp
  have "length (?r # rs) = length (i # rest)" "\<forall>r\<in>set (?r # rs). 3 \<le> r \<and> r \<le> 5"
    "connection s' = connection s"
    using ih(3,4,5) r s1 by simp_all
  with run d show ?case by blast
qed

text \<open>Each of a list of distinct users without ratings rates the sampled items.\<close>

lemma rate_users_no_faults:
  assumes "no_faults e" and "distinct is" and "is \<noteq> []"
  shows "has_ratings (db s) \<Longrightarrow> has_users (db s) \<Longrightarrow> has_items (db s) \<Longrightarrow>
    set us \<subseteq> fst ` set (users (db s)) \<Longrightarrow> set is \<subseteq> fst ` set (items (db s)) \<Longrightarrow> distinct us \<Longrightarrow>
    \<forall>u\<in>set us. ratings_of u (db s) = [] \<Longrightarrow> sample_range (db s) \<Longrightarrow>
    \<exists>s'. rate_users e us is s = (Inr (), s')
      \<and> db s' = (db s)\<lparr>ratings := ratings (db s')\<rparr>
      \<and> connection s' = connection s
      \<and> sample_range (db s')
      \<and> (\<forall>u\<in>set us. length (ratings_of u (db s')) = min 5 (length is)
            \<and> distinct (map (\<lambda>(u, i, r). i) (ratings_of u (db s')))
            \<and> (\<lambda>(u, i, r). i) ` set (ratings_of u (db s')) \<subseteq> set is)
      \<and> (\<forall>u. u \<notin> set us \<longrightarrow> ratings_of u (db s') = ratings_of u (db s))"
proof (induction us arbitrary: s)
  case Nil
  then show ?case by simp
next
  case (Cons u rest)
  let ?k = "min 5 (length is)"
  from py_sample_distinct [OF assms(2), of ?k e s] obtain smp s1 where
    sm: "py_sample e is ?k s = (Inr smp, s1)" "distinct smp" "set smp \<subseteq> set is"
      "length smp = ?k" "db s1 = db s" "connection s1 = connection s"
    by auto
  have nokey: "\<forall>i\<in>set smp. (u, i) \<notin> (\<lambda>(u, i, r). (u, i)) ` set (ratings (db s1))"
    using Cons.prems(7) sm(5) by (simp add: ratings_of_empty_key)
  have pre: "has_ratings (db s1)" "has_users (db s1)" "has_items (db s1)"
    "u \<in> fst ` set (users (db s1))" "set smp \<subseteq> fst ` set (items (db s1))"
    using Cons.prems(1-5) sm(3,5) by auto
  from rate_items_no_faults [OF assms(1) pre sm(2) nokey] sm(5,6) obtain s2 rs where
    ri: "rate_items e u smp s1 = (Inr (), s2)"
      "db s2 = (db s)\<lparr>ratings := ratings (db s) @ map (\<lambda>(i, r). (u, i, r)) (zip smp rs)\<rparr>"
      "length rs = length smp" "\<forall>r\<in>set rs. 3 \<le> r \<and> r \<le> 5"
      "connection s2 = connection s"
    by auto
  let ?new = "map (\<lambda>(i, r). (u, i, r)) (zip smp rs)"
  have of2: "ratings_of v (db s2) = ratings_of v (db s) @ (if v = u then ?new else [])" for v
    using ri(2) by (simp add: ratings_of_def filter_user_rows)
  have range2: "sample_range (db s2)"
    using ri(2,4) Cons.prems(8) by (auto simp: sample_range_def list_all_iff dest: set_zip_rightD)
  have none2: "\<forall>v\<in>set rest. ratings_of v (db s2) = []"
    using of2 Cons.prems(6,7) by auto
  from Cons.IH [of s2] Cons.prems ri(2) none2 range2 obtain s' where
    ih: "rate_users e rest is s2 = (Inr (), s')"
      "db s' = (db s2)\<lparr>ratings := ratings (db s')\<rparr>"
      "connection s' = connection s2"
      "sample_range (db s')"
      "\<forall>v\<in>set rest. length (ratings_of v (db s')) = ?k
            \<and> distinct (map (\<lambda>(u, i, r). i) (ratings_of v (db s')))
            \<and> (\<lambda>(u, i, r). i) ` set (ratings_of v (db s')) \<subseteq> set is"
      "\<forall>v. v \<notin> set rest \<longrightarrow> ratings_of v (db s') = ratings_of v (db s2)"
    by auto
  have run: "rate_users e (u # rest) is s = (Inr (), s')"
    using sm(1) ri(1) ih(1) by simp
  have d: "db s' = (db s)\<lparr>ratings := ratings (db s')\<rparr>"
    using ih(2) ri(2) by simp
  have u_new: "ratings_of u (db s') = ?new"
    using ih(6) Cons.prems(6,7) of2 [of u] by simp
  have mi: "map (\<lambda>(u, i, r). i) ?new = smp"
    using ri(3) by (simp add: comp_def case_prod_unfold)
  have u_facts: "length (ratings_of u (db s')) = ?k
      \<and> distinct (map (\<lambda>(u, i, r). i) (ratings_of u (db s')))
      \<and> (\<lambda>(u, i, r). i) ` set (ratings_of u (db s')) \<subseteq> set is"
  proof -
    have "set (map (\<lambda>(u, i, r). i) (ratings_of u (db s'))) \<subseteq> set is"
      unfolding u_new mi using sm(3) .
    then show ?thesis
      using u_new mi ri(3) sm(2,4) by (simp del: set_map add: set_map [symmetric])
  qed
  have others: "\<forall>v. v \<notin> set (u # rest) \<longrightarrow> ratings_of v (db s') = ratings_of v (db s)"
    using ih(6) of2 by simp
  show ?case
    using run d ih(3,4,5) ri(5) u_facts others by auto
qed

lemma create_sample_users_fresh:
  assumes "no_faults e" and "connection s = Some h" and "has_users (db s)"
    and "users (db s) = []" and "users_seq (db s) = 0"
  shows "db (create_sample_users e s) = (db s)\<lparr>users := example_users, users_seq := 3\<rparr>
    \<and> connection (create_sample_users e s) = Some h"
  using assms
  by (simp add: create_sample_users_def get_cursor_connected execute_def no_faultsD
      insert_user_def sample_users_def safe_commit_def tick_def example_users_def)

lemma query_no_faults:
  "no_faults e \<Longrightarrow> query e q s = (q (db s), tick s)"
  by (simp add: query_def no_faultsD)

text \<open>What \<^verbatim>\<open>_create_sample_ratings\<close> does on a store with users, items and no ratings.\<close>

lemma create_sample_ratings_no_faults:
  assumes "no_faults e" and "connection s = Some h"
    and "has_ratings (db s)" "has_users (db s)" "has_items (db s)"
    and "distinct (map fst (users (db s)))" "distinct (map fst (items (db s)))"
    and "users (db s) \<noteq> []" "items (db s) \<noteq> []" "ratings (db s) = []"
  shows "db (create_sample_ratings e s) = (db s)\<lparr>ratings := ratings (db (create_sample_ratings e s))\<rparr>
    \<and> sample_range (db (create_sample_ratings e s))
    \<and> (\<forall>u\<in>fst ` set (users (db s)).
          length (ratings_of u (db (create_sample_ratings e s))) = min 5 (length (items (db s)))
        \<and> distinct (map (\<lambda>(u, i, r). i) (ratings_of u (db (create_sample_ratings e s))))
        \<and> (\<lambda>(u, i, r). i) ` set (ratings_of u (db (create_sample_ratings e s)))
            \<subseteq> fst ` set (items (db s)))"
proof -
  let ?us = "map fst (users (db s))"
  let ?is = "map fst (items (db s))"
  let ?s3 = "tick (tick s)"
  have pre: "has_ratings (db ?s3)" "has_users (db ?s3)" "has_items (db ?s3)"
    "set ?us \<subseteq> fst ` set (users (db ?s3))" "set ?is \<subseteq> fst ` set (items (db ?s3))"
    "distinct ?us" "\<forall>u\<in>set ?us. ratings_of u (db ?s3) = []" "sample_range (db ?s3)"
    using assms by (simp_all add: ratings_of_def sample_range_def)
  have ne: "?is \<noteq> []" using assms(9) by simp
  from rate_users_no_faults [OF assms(1) assms(7) ne pre] obtain s4 where
    s4: "rate_users e ?us ?is ?s3 = (Inr (), s4)"
      "db s4 = (db ?s3)\<lparr>ratings := ratings (db s4)\<rparr>"
      "connection s4 = connection ?s3"
      "sample_range (db s4)"
      "\<forall>u\<in>set ?us. length (ratings_of u (db s4)) = min 5 (length ?is)
            \<and> distinct (map (\<lambda>(u, i, r). i) (ratings_of u (db s4)))
            \<and> (\<lambda>(u, i, r). i) ` set (ratings_of u (db s4)) \<subseteq> set ?is"
    by blast
  have run: "create_sample_ratings e s = snd (safe_commit e s4)"
    using assms(1,2,4,5,8,9) s4(1)
    by (simp add: create_sample_ratings_def get_cursor_connected query_no_faults
        select_user_ids_def select_item_ids_def)
  have d: "db (create_sample_ratings e s) = db s4" by (simp add: run)
  show ?thesis
    unfolding d using s4(2,4,5) by simp
qed

lemma number_from_ids_above: "i \<in> fst ` set (number_from n xs) \<Longrightarrow> n < i"
  by (induction xs arbitrary: n) fastforce+

lemma distinct_ids_number_from: "distinct (map fst (number_from n xs))"
proof (induction xs arbitrary: n)
  case Nil
  show ?case by simp
next
  case (Cons x xs)
  have "n + 1 \<notin> fst ` set (number_from (n + 1) xs)"
    using number_from_ids_above [of "n + 1" "n + 1" xs] by auto
  with Cons show ?case by simp
qed

text \<open>
  C2. With no file at the source path, on a store whose tables are empty and in a run in
  which no call to the driver fails, ingestion leaves exactly the five sample items (ids 1 to
  5) and exactly the three sample users (ids 1 to 3). Every user then has
  \<open>min(5, number of items) = 5\<close> ratings, which is between 1 and 5, on distinct items, and every
  rating lies in \<open>[3, 5]\<close>, whatever the random module returns.
\<close>

theorem absent_source_gives_sample_data:
  assumes "no_faults e" and "db s = fresh_store"
  shows "items (db (insert_initial_data e NoFile s)) = number_from 0 sample_items
    \<and> length (items (db (insert_initial_data e NoFile s))) = 5
    \<and> users (db (insert_initial_data e NoFile s)) = example_users
    \<and> (\<forall>u\<in>fst ` set (users (db (insert_initial_data e NoFile s))).
          1 \<le> length (ratings_of u (db (insert_initial_data e NoFile s)))
        \<and> length (ratings_of u (db (insert_initial_data e NoFile s))) \<le> 5
        \<and> length (ratings_of u (db (insert_initial_data e NoFile s)))
            = min 5 (length (items (db (insert_initial_data e NoFile s))))
        \<and> distinct (map (\<lambda>(u, i, r). i) (ratings_of u (db (insert_initial_data e NoFile s)))))
    \<and> (\<forall>(u, i, r)\<in>set (ratings (db (insert_initial_data e NoFile s))). 3 \<le> r \<and> r \<le> 5)"
proof -
  have hi: "has_items (db s)" using assms(2) by (simp add: fresh_store_def)
  from create_sample_data_no_faults [OF assms(1) hi] obtain s2 where
    s2: "create_sample_data e s = create_sample_ratings e (create_sample_users e s2)"
      "db s2 = (db s)\<lparr>items := items (db s) @ number_from (items_seq (db s)) sample_items,
                      items_seq := items_seq (db s) + 5\<rparr>"
      "connection s2 \<noteq> None"
    by blast
  then obtain h where h: "connection s2 = Some h" by auto
  let ?d2 = "fresh_store\<lparr>items := number_from 0 sample_items, items_seq := 5\<rparr>"
  have d2: "db s2 = ?d2" using s2(2) assms(2) by (simp add: fresh_store_def)
  let ?s3 = "create_sample_users e s2"
  have u: "db ?s3 = ?d2\<lparr>users := example_users, users_seq := 3\<rparr>" "connection ?s3 = Some h"
    using create_sample_users_fresh [OF assms(1) h, of ] d2 by (simp_all add: fresh_store_def)
  let ?s4 = "create_sample_ratings e ?s3"
  have pre: "has_ratings (db ?s3)" "has_users (db ?s3)" "has_items (db ?s3)"
    "distinct (map fst (users (db ?s3)))" "distinct (map fst (items (db ?s3)))"
    "users (db ?s3) \<noteq> []" "items (db ?s3) \<noteq> []" "ratings (db ?s3) = []"
    unfolding u(1)
    by (simp_all add: fresh_store_def example_users_def distinct_ids_number_from)
      (simp add: sample_items_def)
  note r = create_sample_ratings_no_faults [OF assms(1) u(2) pre]
  have run: "insert_initial_data e NoFile s = ?s4"
    by (simp add: insert_initial_data_def read_source_def s2(1))
  from r have eq: "db ?s4 = (db ?s3)\<lparr>ratings := ratings (db ?s4)\<rparr>" by blast
  from arg_cong [OF eq, of items] arg_cong [OF eq, of users]
  have it: "items (db ?s4) = number_from 0 sample_items" "users (db ?s4) = example_users"
    by (simp_all add: u(1))
  have len: "length (number_from 0 sample_items) = 5" by (simp add: sample_items_def)
  have us3: "users (db ?s3) = example_users" "items (db ?s3) = number_from 0 sample_items"
    by (simp_all add: u(1))
  from r have "\<forall>u\<in>fst ` set (users (db ?s3)).
      length (ratings_of u (db ?s4)) = min 5 (length (items (db ?s3)))
      \<and> distinct (map (\<lambda>(u, i, r). i) (ratings_of u (db ?s4)))"
    by blast
  then have per: "\<forall>u\<in>fst ` set example_users.
      length (ratings_of u (db ?s4)) = 5
      \<and> distinct (map (\<lambda>(u, i, r). i) (ratings_of u (db ?s4)))"
    unfolding us3 len by simp
  from r have "sample_range (db ?s4)" by blast
  then have rng: "\<forall>(u, i, r)\<in>set (ratings (db ?s4)). 3 \<le> r \<and> r \<le> 5"
    by (simp add: sample_range_def list_all_iff)
  show ?thesis
    unfolding run using it len per rng by simp
qed

theorem absent_source_gives_sample_data_witness:
  "no_faults quiet_env \<and> db new_state = fresh_store
   \<and> length (items (db (insert_initial_data quiet_env NoFile new_state))) = 5
   \<and> users (db (insert_initial_data quiet_env NoFile new_state))
       = [(1, ''Example user 1''), (2, ''Example user 2''), (3, ''Example user 3'')]
   \<and> length (ratings_of 1 (db (insert_initial_data quiet_env NoFile new_state))) = 5
   \<and> length (ratings_of 2 (db (insert_initial_data quiet_env NoFile new_state))) = 5
   \<and> length (ratings_of 3 (db (insert_initial_data quiet_env NoFile new_state))) = 5"
proof -
  have q: "no_faults quiet_env" by (simp add: no_faults_def quiet_env_def)
  have n: "db new_state = fresh_store" by (simp add: new_state_def)
  note t = absent_source_gives_sample_data [OF q n]
  from t have a: "length (items (db (insert_initial_data quiet_env NoFile new_state))) = 5"
    by blast
  from t have b: "users (db (insert_initial_data quiet_env NoFile new_state)) = example_users"
    by blast
  from t have "\<forall>u\<in>fst ` set (users (db (insert_initial_data quiet_env NoFile new_state))).
      length (ratings_of u (db (insert_initial_data quiet_env NoFile new_state)))
        = min 5 (length (items (db (insert_initial_data quiet_env NoFile new_state))))"
    by blast
  then have c: "\<forall>u\<in>fst ` set example_users.
      length (ratings_of u (db (insert_initial_data quiet_env NoFile new_state))) = 5"
    unfolding a b by simp
  from q n a b c show ?thesis by (simp add: example_users_def)
qed

end
